theory Spec2Isabelle
  imports Main "HOL-Library.Word"
begin

unbundle bit_operations_syntax

section \<open>Bytes, readers and errors\<close>

text \<open>
  A byte stream (\<open>io.Reader\<close> over a byte slice, \<open>bytes.Buffer\<close>) is the list of the
  bytes that are still unread. A function that reads returns what it read together with
  the unread rest (or the number of bytes it consumed), or an error.
\<close>

type_synonym byte = "8 word"

text \<open>
  The errors of the functions below: \<open>io.EOF\<close> and \<open>io.ErrUnexpectedEOF\<close> of the Go
  standard library, the errors of the tlv package, and the errors of the package itself.
  \<open>ErrNoPastDeltas\<close> is declared outside the sources; \<open>ErrTypeForDecoding\<close> is the
  error of a fixed-size field with a wrong declared length (the spec's
  InvalidFieldLength).
\<close>

datatype error =
    EOF
  | ErrUnexpectedEOF
  | ErrVarIntNotCanonical
  | ErrStreamNotCanonical
  | ErrTypeForDecoding
  | ErrCorruptedBool
  | ErrLogEntryNotFound
  | ErrOutputIndexTooBig
  | ErrNoPastDeltas

text \<open>
  \<open>io.ReadFull\<close> of the Go standard library: exactly \<open>n\<close> bytes, \<open>io.EOF\<close> when
  nothing could be read, \<open>io.ErrUnexpectedEOF\<close> when the stream ends after some but not
  all of them.
\<close>

definition ReadFull :: "byte list \<Rightarrow> nat \<Rightarrow> error + byte list" where
  "ReadFull r n =
     (if n \<le> length r then Inr (take n r)
      else if r = [] then Inl EOF
      else Inl ErrUnexpectedEOF)"

subsection \<open>Big-endian integers\<close>

definition be16 :: "16 word \<Rightarrow> byte list" where
  "be16 w = [ucast (drop_bit 8 w), ucast w]"

definition be32 :: "32 word \<Rightarrow> byte list" where
  "be32 w = [ucast (drop_bit 24 w), ucast (drop_bit 16 w), ucast (drop_bit 8 w), ucast w]"

definition be64 :: "64 word \<Rightarrow> byte list" where
  "be64 w = [ucast (drop_bit 56 w), ucast (drop_bit 48 w), ucast (drop_bit 40 w),
             ucast (drop_bit 32 w), ucast (drop_bit 24 w), ucast (drop_bit 16 w),
             ucast (drop_bit 8 w), ucast w]"

definition de16 :: "byte list \<Rightarrow> 16 word" where
  "de16 bs = fold (\<lambda>b acc. push_bit 8 acc OR ucast b) bs 0"

definition de32 :: "byte list \<Rightarrow> 32 word" where
  "de32 bs = fold (\<lambda>b acc. push_bit 8 acc OR ucast b) bs 0"

definition de64 :: "byte list \<Rightarrow> 64 word" where
  "de64 bs = fold (\<lambda>b acc. push_bit 8 acc OR ucast b) bs 0"

section \<open>The tlv package\<close>

subsection \<open>Variable-length integers\<close>

text \<open>
  Modelled from the spec: \<open>tlv.WriteVarInt\<close> is not among the sources. Section 4.1 calls
  it a compact variable-length unsigned integer and section 3 gives it 1 to 9 bytes
  depending on magnitude: one byte below \<open>0xfd\<close>, otherwise a marker byte \<open>0xfd\<close>,
  \<open>0xfe\<close> or \<open>0xff\<close> followed by the value in 2, 4 or 8 big-endian bytes.
\<close>

definition WriteVarInt :: "64 word \<Rightarrow> byte list" where
  "WriteVarInt val =
     (if val < 0xfd then [ucast val]
      else if val \<le> 0xffff then 0xfd # be16 (ucast val)
      else if val \<le> 0xffffffff then 0xfe # be32 (ucast val)
      else 0xff # be64 val)"

text \<open>
  Modelled from the spec: \<open>tlv.ReadVarInt\<close> is not among the sources. It reads back
  what \<open>WriteVarInt\<close> writes. End of stream before the first byte is \<open>io.EOF\<close> (the
  case \<open>readTlvStream\<close> tests for); end of stream inside the integer is
  \<open>io.ErrUnexpectedEOF\<close>; a value written with more bytes than it needs is refused.
  The result is the value and the unread rest of the stream.
\<close>

fun ReadVarInt :: "byte list \<Rightarrow> error + (64 word \<times> byte list)" where
  "ReadVarInt [] = Inl EOF"
| "ReadVarInt (discriminant # r) =
     (if discriminant < 0xfd then Inr (ucast discriminant, r)
      else if discriminant = 0xfd then
        (case ReadFull r 2 of
           Inl err \<Rightarrow> Inl ErrUnexpectedEOF
         | Inr bs \<Rightarrow>
             (let rv = (ucast (de16 bs) :: 64 word)
              in if rv < 0xfd then Inl ErrVarIntNotCanonical else Inr (rv, drop 2 r)))
      else if discriminant = 0xfe then
        (case ReadFull r 4 of
           Inl err \<Rightarrow> Inl ErrUnexpectedEOF
         | Inr bs \<Rightarrow>
             (let rv = (ucast (de32 bs) :: 64 word)
              in if rv \<le> 0xffff then Inl ErrVarIntNotCanonical else Inr (rv, drop 4 r)))
      else
        (case ReadFull r 8 of
           Inl err \<Rightarrow> Inl ErrUnexpectedEOF
         | Inr bs \<Rightarrow>
             (let rv = de64 bs
              in if rv \<le> 0xffffffff then Inl ErrVarIntNotCanonical else Inr (rv, drop 8 r))))"

subsection \<open>Records\<close>

text \<open>
  Modelled from the spec: \<open>tlv.Record\<close> is not among the sources. A record is a type
  tag, the size of its value, an encoder and a decoder (section 6: a field is type,
  length, value). The Go record holds a pointer into the struct being encoded or filled
  in; here the struct is the state \<open>'a\<close>, and the pointer is a pair of a getter and a
  setter on it. A decoder gets the stream and the declared length, as
  \<open>sparseHashDecoder\<close> in the sources does, and returns the new state and the number of
  bytes it consumed.
\<close>

record 'a tlvRecord =
  rec_typ :: "64 word"
  rec_size :: "'a \<Rightarrow> 64 word"
  rec_encoder :: "'a \<Rightarrow> byte list"
  rec_decoder :: "byte list \<Rightarrow> 64 word \<Rightarrow> 'a \<Rightarrow> error + ('a \<times> nat)"

text \<open>
  Modelled from the spec: \<open>tlv.MakeDynamicRecord\<close> and \<open>tlv.MakeStaticRecord\<close> are not
  among the sources. They make a record out of a pointer to the value, its size (a
  function of the value, or a constant) and the encoder and decoder of the value.
\<close>

type_synonym 'v Encoder = "'v \<Rightarrow> byte list"
type_synonym 'v Decoder = "byte list \<Rightarrow> 64 word \<Rightarrow> 'v \<Rightarrow> error + ('v \<times> nat)"

definition MakeDynamicRecord ::
  "64 word \<Rightarrow> ('a \<Rightarrow> 'v) \<Rightarrow> ('v \<Rightarrow> 'a \<Rightarrow> 'a) \<Rightarrow> ('v \<Rightarrow> 64 word) \<Rightarrow> 'v Encoder \<Rightarrow> 'v Decoder
     \<Rightarrow> 'a tlvRecord" where
  "MakeDynamicRecord typ getv setv sizeFunc encoder decoder =
     \<lparr> rec_typ = typ,
       rec_size = (\<lambda>s. sizeFunc (getv s)),
       rec_encoder = (\<lambda>s. encoder (getv s)),
       rec_decoder = (\<lambda>r l s.
          case decoder r l (getv s) of
            Inl err \<Rightarrow> Inl err
          | Inr (x, n) \<Rightarrow> Inr (setv x s, n)) \<rparr>"

definition MakeStaticRecord ::
  "64 word \<Rightarrow> ('a \<Rightarrow> 'v) \<Rightarrow> ('v \<Rightarrow> 'a \<Rightarrow> 'a) \<Rightarrow> 64 word \<Rightarrow> 'v Encoder \<Rightarrow> 'v Decoder
     \<Rightarrow> 'a tlvRecord" where
  "MakeStaticRecord typ getv setv staticSize encoder decoder =
     MakeDynamicRecord typ getv setv (\<lambda>_. staticSize) encoder decoder"

text \<open>
  Modelled from the spec: the primitive encoders and decoders of the tlv package are not
  among the sources. Section 6 lists the fields as u16, u32, 32 bytes, bool and varint;
  a fixed-size decoder refuses a declared length other than its size (section 7,
  InvalidFieldLength).
\<close>

definition EUint16 :: "16 word Encoder" where
  "EUint16 v = be16 v"

definition DUint16 :: "16 word Decoder" where
  "DUint16 r l v =
     (if l = 2 then
        (case ReadFull r 2 of Inl err \<Rightarrow> Inl err | Inr bs \<Rightarrow> Inr (de16 bs, 2))
      else Inl ErrTypeForDecoding)"

definition EUint32 :: "32 word Encoder" where
  "EUint32 v = be32 v"

definition DUint32 :: "32 word Decoder" where
  "DUint32 r l v =
     (if l = 4 then
        (case ReadFull r 4 of Inl err \<Rightarrow> Inl err | Inr bs \<Rightarrow> Inr (de32 bs, 4))
      else Inl ErrTypeForDecoding)"

definition EBool :: "bool Encoder" where
  "EBool v = (if v then [1] else [0])"

definition DBool :: "bool Decoder" where
  "DBool r l v =
     (if l = 1 then
        (case ReadFull r 1 of
           Inl err \<Rightarrow> Inl err
         | Inr bs \<Rightarrow>
             (if bs = [0] then Inr (False, 1)
              else if bs = [1] then Inr (True, 1)
              else Inl ErrCorruptedBool))
      else Inl ErrTypeForDecoding)"

definition EBytes32 :: "byte list Encoder" where
  "EBytes32 v = v"

definition DBytes32 :: "byte list Decoder" where
  "DBytes32 r l v =
     (if l = 32 then
        (case ReadFull r 32 of Inl err \<Rightarrow> Inl err | Inr bs \<Rightarrow> Inr (bs, 32))
      else Inl ErrTypeForDecoding)"

definition VarIntSize :: "64 word \<Rightarrow> 64 word" where
  "VarIntSize val = of_nat (length (WriteVarInt val))"

definition EBigSize :: "64 word Encoder" where
  "EBigSize v = WriteVarInt v"

definition DBigSize :: "64 word Decoder" where
  "DBigSize r l v =
     (case ReadVarInt r of
        Inl err \<Rightarrow> Inl err
      | Inr (x, rest) \<Rightarrow> Inr (x, length r - length rest))"

text \<open>
  Modelled from the spec: \<open>tlv.MakePrimitiveRecord\<close> and \<open>tlv.MakeBigSizeRecord\<close> are not
  among the sources. \<open>MakePrimitiveRecord\<close> chooses size, encoder and decoder by the type
  of the pointer; there is one definition for each type the sources use it at.
\<close>

definition MakePrimitiveRecord_uint16 ::
  "64 word \<Rightarrow> ('a \<Rightarrow> 16 word) \<Rightarrow> (16 word \<Rightarrow> 'a \<Rightarrow> 'a) \<Rightarrow> 'a tlvRecord" where
  "MakePrimitiveRecord_uint16 typ getv setv = MakeStaticRecord typ getv setv 2 EUint16 DUint16"

definition MakePrimitiveRecord_uint32 ::
  "64 word \<Rightarrow> ('a \<Rightarrow> 32 word) \<Rightarrow> (32 word \<Rightarrow> 'a \<Rightarrow> 'a) \<Rightarrow> 'a tlvRecord" where
  "MakePrimitiveRecord_uint32 typ getv setv = MakeStaticRecord typ getv setv 4 EUint32 DUint32"

definition MakePrimitiveRecord_bool ::
  "64 word \<Rightarrow> ('a \<Rightarrow> bool) \<Rightarrow> (bool \<Rightarrow> 'a \<Rightarrow> 'a) \<Rightarrow> 'a tlvRecord" where
  "MakePrimitiveRecord_bool typ getv setv = MakeStaticRecord typ getv setv 1 EBool DBool"

definition MakePrimitiveRecord_bytes32 ::
  "64 word \<Rightarrow> ('a \<Rightarrow> byte list) \<Rightarrow> (byte list \<Rightarrow> 'a \<Rightarrow> 'a) \<Rightarrow> 'a tlvRecord" where
  "MakePrimitiveRecord_bytes32 typ getv setv =
     MakeStaticRecord typ getv setv 32 EBytes32 DBytes32"

definition MakeBigSizeRecord ::
  "64 word \<Rightarrow> ('a \<Rightarrow> 64 word) \<Rightarrow> (64 word \<Rightarrow> 'a \<Rightarrow> 'a) \<Rightarrow> 'a tlvRecord" where
  "MakeBigSizeRecord typ getv setv =
     MakeDynamicRecord typ getv setv VarIntSize EBigSize DBigSize"

subsection \<open>Streams\<close>

text \<open>
  Modelled from the spec: \<open>tlv.NewStream\<close> is not among the sources. Section 4.3 has
  the tags written in increasing numeric order; the constructor refuses a list of
  records whose tags do not strictly increase.
\<close>

fun ascending :: "64 word list \<Rightarrow> bool" where
  "ascending (a # b # rest) = (a < b \<and> ascending (b # rest))"
| "ascending _ = True"

definition NewStream :: "'a tlvRecord list \<Rightarrow> error + 'a tlvRecord list" where
  "NewStream records =
     (if ascending (map rec_typ records) then Inr records else Inl ErrStreamNotCanonical)"

text \<open>
  Modelled from the spec: \<open>Stream.Encode\<close> is not among the sources. Each record is
  written as its type, the length of its value and the value (section 6), in the order
  of the stream's records.
\<close>

definition encodeRecord :: "'a tlvRecord \<Rightarrow> 'a \<Rightarrow> byte list" where
  "encodeRecord rc v =
     WriteVarInt (rec_typ rc) @ WriteVarInt (rec_size rc v) @ rec_encoder rc v"

fun Encode :: "'a tlvRecord list \<Rightarrow> 'a \<Rightarrow> byte list" where
  "Encode [] v = []"
| "Encode (rc # recs) v = encodeRecord rc v @ Encode recs v"

text \<open>
  Modelled from the spec: \<open>Stream.DecodeWithParsedTypes\<close> is not among the sources.
  Section 4.3: fields are accepted in any order, and a field with an unknown tag is
  skipped by its declared length. Section 4.1 and 7: a stream that ends inside a field
  is a truncated record, \<open>io.ErrUnexpectedEOF\<close>; the end of the stream where the next
  tag would start ends the field list. The type map records every tag seen: a tag of
  the stream's own records maps to no bytes (\<open>nil\<close>), an unknown tag to its raw value,
  which is what \<open>deserializeRevocationLog\<close> tests with \<open>ok && t == nil\<close>.
\<close>

type_synonym TypeMap = "64 word \<rightharpoonup> byte list option"

definition getRecord :: "'a tlvRecord list \<Rightarrow> 64 word \<Rightarrow> 'a tlvRecord option" where
  "getRecord s t = find (\<lambda>rc. rec_typ rc = t) s"

function decode ::
  "'a tlvRecord list \<Rightarrow> byte list \<Rightarrow> 'a \<Rightarrow> TypeMap \<Rightarrow> error + ('a \<times> TypeMap)" where
  "decode s r v parsedTypes =
     (case ReadVarInt r of
        Inl err \<Rightarrow> (if err = EOF then Inr (v, parsedTypes) else Inl err)
      | Inr (t, r1) \<Rightarrow>
          (case ReadVarInt r1 of
             Inl err \<Rightarrow> (if err = EOF then Inl ErrUnexpectedEOF else Inl err)
           | Inr (len, r2) \<Rightarrow>
               (case getRecord s t of
                  Some rc \<Rightarrow>
                    (case rec_decoder rc r2 len v of
                       Inl err \<Rightarrow> (if err = EOF then Inl ErrUnexpectedEOF else Inl err)
                     | Inr (v', n) \<Rightarrow> decode s (drop n r2) v' (parsedTypes(t \<mapsto> None)))
                | None \<Rightarrow>
                    (if unat len \<le> length r2
                     then decode s (drop (unat len) r2) v
                            (parsedTypes(t \<mapsto> Some (take (unat len) r2)))
                     else Inl ErrUnexpectedEOF))))"
  by pat_completeness auto
termination
proof -
  have shorter: "length rest < length r" if "ReadVarInt r = Inr (x, rest)" for r x rest
    using that
    by (cases r) (auto simp: ReadFull_def Let_def split: if_splits sum.splits)
  show ?thesis
  proof (relation "measure (\<lambda>(s, r, v, p). length r)", goal_cases)
    case 1
    show ?case by simp
  next
    case 2
    then show ?case by (auto dest!: shorter)
  next
    case 3
    then show ?case by (auto dest!: shorter)
  qed
qed

declare decode.simps [simp del]

definition DecodeWithParsedTypes ::
  "'a tlvRecord list \<Rightarrow> byte list \<Rightarrow> 'a \<Rightarrow> error + ('a \<times> TypeMap)" where
  "DecodeWithParsedTypes s r v = decode s r v Map.empty"

section \<open>The revocation log\<close>

subsection \<open>Sparse payment hashes\<close>

text \<open>
  \<open>SparsePayHash\<close> is \<open>[32]byte\<close>: a list of bytes, 32 of them in every well-formed
  value.
\<close>

type_synonym SparsePayHash = "byte list"

text \<open>
  Modelled from the spec: \<open>lntypes.ZeroHash\<close> is not among the sources. Section 4.2: the
  all-zero 32-byte value.
\<close>

definition ZeroHash :: "byte list" where
  "ZeroHash = replicate 32 0"

definition hashLen :: "SparsePayHash \<Rightarrow> 64 word" where
  "hashLen s = (if s = ZeroHash then 0 else 32)"

definition sparseHashEncoder :: "SparsePayHash Encoder" where
  "sparseHashEncoder v = (if v = ZeroHash then [] else EBytes32 v)"

text \<open>
  The decoder leaves the value alone at length 0 and otherwise calls \<open>tlv.DBytes32\<close>
  with the constant 32, not with the declared length \<open>l\<close>.
\<close>

definition sparseHashDecoder :: "SparsePayHash Decoder" where
  "sparseHashDecoder r l v =
     (if l = 0 then Inr (v, 0)
      else (case DBytes32 r 32 v of
              Inl err \<Rightarrow> Inl err
            | Inr (vArray, n) \<Rightarrow> Inr (vArray, n)))"

subsection \<open>HTLC entries\<close>

record HTLCEntry =
  RHash :: SparsePayHash
  RefundTimeout :: "32 word"
  OutputIndex :: "16 word"
  Incoming :: bool
  Amt :: "64 word"

text \<open>The zero value of the struct, \<open>var htlc HTLCEntry\<close>.\<close>

definition zeroHTLCEntry :: HTLCEntry where
  "zeroHTLCEntry =
     \<lparr> RHash = ZeroHash, RefundTimeout = 0, OutputIndex = 0, Incoming = False, Amt = 0 \<rparr>"

text \<open>
  The records of \<open>toTlvStream\<close>, one for each field of the entry, with the types
  \<open>TlvType0\<close> to \<open>TlvType4\<close> of the field declarations.
\<close>

definition htlcRecords :: "HTLCEntry tlvRecord list" where
  "htlcRecords =
     [ MakeDynamicRecord 0 RHash (\<lambda>x h. h\<lparr>RHash := x\<rparr>)
         hashLen sparseHashEncoder sparseHashDecoder,
       MakePrimitiveRecord_uint32 1 RefundTimeout (\<lambda>x h. h\<lparr>RefundTimeout := x\<rparr>),
       MakePrimitiveRecord_uint16 2 OutputIndex (\<lambda>x h. h\<lparr>OutputIndex := x\<rparr>),
       MakePrimitiveRecord_bool 3 Incoming (\<lambda>x h. h\<lparr>Incoming := x\<rparr>),
       MakeBigSizeRecord 4 Amt (\<lambda>x h. h\<lparr>Amt := x\<rparr>) ]"

definition toTlvStream :: "error + HTLCEntry tlvRecord list" where
  "toTlvStream = NewStream htlcRecords"

subsection \<open>The commitment and its HTLCs\<close>

text \<open>
  The structs \<open>HTLC\<close> and \<open>ChannelCommitment\<close> are declared outside the sources;
  these are the fields \<open>putRevocationLog\<close> reads. \<open>OutputIndex\<close> of an HTLC is an
  \<open>int32\<close>, read with \<open>sint\<close>. \<open>CommitTx_TxHash\<close> stands for
  \<open>commit.CommitTx.TxHash()\<close>. The amounts are \<open>lnwire.MilliSatoshi\<close>, a \<open>uint64\<close>;
  \<open>MilliSatoshi.ToSatoshis\<close> is a parameter \<open>toSatoshis\<close> of the functions that call it.
\<close>

record HTLC =
  HTLC_RHash :: "byte list"
  HTLC_RefundTimeout :: "32 word"
  HTLC_OutputIndex :: "32 word"
  HTLC_Incoming :: bool
  HTLC_Amt :: "64 word"

record ChannelCommitment =
  CommitHeight :: "64 word"
  LocalBalance :: "64 word"
  RemoteBalance :: "64 word"
  CommitTx_TxHash :: "byte list"
  Htlcs :: "HTLC list"

definition NewHTLCEntryFromHTLC :: "(64 word \<Rightarrow> 64 word) \<Rightarrow> HTLC \<Rightarrow> HTLCEntry" where
  "NewHTLCEntryFromHTLC toSatoshis htlc =
     \<lparr> RHash = HTLC_RHash htlc,
       RefundTimeout = HTLC_RefundTimeout htlc,
       OutputIndex = ucast (HTLC_OutputIndex htlc),
       Incoming = HTLC_Incoming htlc,
       Amt = toSatoshis (HTLC_Amt htlc) \<rparr>"

subsection \<open>The revocation log record\<close>

record RevocationLog =
  OurOutputIndex :: "16 word"
  TheirOutputIndex :: "16 word"
  CommitTxHash :: "byte list"
  HTLCEntries :: "HTLCEntry list"
  OurBalance :: "64 word option"
  TheirBalance :: "64 word option"

definition zeroRevocationLog :: RevocationLog where
  "zeroRevocationLog =
     \<lparr> OurOutputIndex = 0, TheirOutputIndex = 0, CommitTxHash = ZeroHash,
       HTLCEntries = [], OurBalance = None, TheirBalance = None \<rparr>"

definition revLogOurOutputIndexType :: "64 word" where
  "revLogOurOutputIndexType = 0"

definition revLogTheirOutputIndexType :: "64 word" where
  "revLogTheirOutputIndexType = 1"

definition revLogCommitTxHashType :: "64 word" where
  "revLogCommitTxHashType = 2"

definition revLogOurBalanceType :: "64 word" where
  "revLogOurBalanceType = 3"

definition revLogTheirBalanceType :: "64 word" where
  "revLogTheirBalanceType = 4"

subsection \<open>Writing and reading a framed stream\<close>

definition writeTlvStream :: "'a tlvRecord list \<Rightarrow> 'a \<Rightarrow> byte list" where
  "writeTlvStream s v =
     (let b = Encode s v
      in WriteVarInt (of_nat (length b)) @ b)"

text \<open>
  \<open>io.LimitReader(r, int64(bodyLen))\<close> gives at most \<open>int64(bodyLen)\<close> bytes of \<open>r\<close>
  and nothing when that number is not positive; it does not check that so many bytes
  are there. The result is the decoded state, the type map and the rest of the stream.
\<close>

definition readTlvStream ::
  "byte list \<Rightarrow> 'a tlvRecord list \<Rightarrow> 'a \<Rightarrow> error + ('a \<times> TypeMap \<times> byte list)" where
  "readTlvStream r s v =
     (case ReadVarInt r of
        Inl err \<Rightarrow> (if err = EOF then Inl ErrUnexpectedEOF else Inl err)
      | Inr (bodyLen, r1) \<Rightarrow>
          (let n = (if sint bodyLen \<le> 0 then 0 else unat bodyLen)
           in case DecodeWithParsedTypes s (take n r1) v of
                Inl err \<Rightarrow> Inl err
              | Inr (v', parsedTypes) \<Rightarrow> Inr (v', parsedTypes, drop n r1)))"

subsection \<open>Serialization\<close>

fun serializeHTLCEntries :: "HTLCEntry list \<Rightarrow> error + byte list" where
  "serializeHTLCEntries [] = Inr []"
| "serializeHTLCEntries (htlc # htlcs) =
     (case toTlvStream of
        Inl err \<Rightarrow> Inl err
      | Inr tlvStream \<Rightarrow>
          (case serializeHTLCEntries htlcs of
             Inl err \<Rightarrow> Inl err
           | Inr w \<Rightarrow> Inr (writeTlvStream tlvStream htlc @ w)))"

text \<open>
  The balance records point at the locals \<open>lb\<close> and \<open>rb\<close>, which hold the values of
  the balances: their getters return those values and nothing is ever decoded into them.
\<close>

definition serializeRevocationLog :: "RevocationLog \<Rightarrow> error + byte list" where
  "serializeRevocationLog rl =
     (let records =
            [ MakePrimitiveRecord_uint16 revLogOurOutputIndexType
                OurOutputIndex (\<lambda>x s. s\<lparr>OurOutputIndex := x\<rparr>),
              MakePrimitiveRecord_uint16 revLogTheirOutputIndexType
                TheirOutputIndex (\<lambda>x s. s\<lparr>TheirOutputIndex := x\<rparr>),
              MakePrimitiveRecord_bytes32 revLogCommitTxHashType
                CommitTxHash (\<lambda>x s. s\<lparr>CommitTxHash := x\<rparr>) ];
          records =
            (case OurBalance rl of
               None \<Rightarrow> records
             | Some lb \<Rightarrow>
                 records @ [MakeBigSizeRecord revLogOurBalanceType (\<lambda>_. lb) (\<lambda>_ s. s)]);
          records =
            (case TheirBalance rl of
               None \<Rightarrow> records
             | Some rb \<Rightarrow>
                 records @ [MakeBigSizeRecord revLogTheirBalanceType (\<lambda>_. rb) (\<lambda>_ s. s)])
      in case NewStream records of
           Inl err \<Rightarrow> Inl err
         | Inr tlvStream \<Rightarrow>
             (case serializeHTLCEntries (HTLCEntries rl) of
                Inl err \<Rightarrow> Inl err
              | Inr w \<Rightarrow> Inr (writeTlvStream tlvStream rl @ w)))"

subsection \<open>Deserialization\<close>

text \<open>
  The loop of \<open>deserializeHTLCEntries\<close>: each round reads one framed stream into a
  fresh entry; \<open>io.ErrUnexpectedEOF\<close> from the read ends the loop, any other error is
  returned.
\<close>

function deserializeHTLCEntries_loop ::
  "byte list \<Rightarrow> HTLCEntry list \<Rightarrow> error + HTLCEntry list" where
  "deserializeHTLCEntries_loop r htlcs =
     (case toTlvStream of
        Inl err \<Rightarrow> Inl err
      | Inr tlvStream \<Rightarrow>
          (case readTlvStream r tlvStream zeroHTLCEntry of
             Inl err \<Rightarrow> (if err = ErrUnexpectedEOF then Inr htlcs else Inl err)
           | Inr (htlc, parsedTypes, r') \<Rightarrow> deserializeHTLCEntries_loop r' (htlcs @ [htlc])))"
  by pat_completeness auto
termination
proof -
  have shorter: "length rest < length r" if "ReadVarInt r = Inr (x, rest)" for r x rest
    using that
    by (cases r) (auto simp: ReadFull_def Let_def split: if_splits sum.splits)
  show ?thesis
  proof (relation "measure (\<lambda>(r, htlcs). length r)", goal_cases)
    case 1
    show ?case by simp
  next
    case (2 r htlcs tlvStream x2 htlc x2a parsedTypes r')
    then show ?case
      by (auto simp: readTlvStream_def Let_def split: sum.splits if_splits prod.splits
          dest!: shorter)
  qed
qed

declare deserializeHTLCEntries_loop.simps [simp del]

definition deserializeHTLCEntries :: "byte list \<Rightarrow> error + HTLCEntry list" where
  "deserializeHTLCEntries r = deserializeHTLCEntries_loop r []"

text \<open>
  The state the header stream decodes into: the result \<open>rl\<close> (here \<open>frame_rl\<close>) and the locals
  \<open>ourBalance\<close> and \<open>theirBalance\<close>.
\<close>

record rlFrame =
  frame_rl :: RevocationLog
  ourBalance :: "64 word"
  theirBalance :: "64 word"

text \<open>The records of the stream that \<open>deserializeRevocationLog\<close> creates.\<close>

definition frameRecords :: "rlFrame tlvRecord list" where
  "frameRecords =
     [ MakePrimitiveRecord_uint16 revLogOurOutputIndexType
         (\<lambda>f. OurOutputIndex (frame_rl f))
         (\<lambda>x f. f\<lparr>frame_rl := (frame_rl f)\<lparr>OurOutputIndex := x\<rparr>\<rparr>),
       MakePrimitiveRecord_uint16 revLogTheirOutputIndexType
         (\<lambda>f. TheirOutputIndex (frame_rl f))
         (\<lambda>x f. f\<lparr>frame_rl := (frame_rl f)\<lparr>TheirOutputIndex := x\<rparr>\<rparr>),
       MakePrimitiveRecord_bytes32 revLogCommitTxHashType
         (\<lambda>f. CommitTxHash (frame_rl f))
         (\<lambda>x f. f\<lparr>frame_rl := (frame_rl f)\<lparr>CommitTxHash := x\<rparr>\<rparr>),
       MakeBigSizeRecord revLogOurBalanceType
         ourBalance (\<lambda>x f. f\<lparr>ourBalance := x\<rparr>),
       MakeBigSizeRecord revLogTheirBalanceType
         theirBalance (\<lambda>x f. f\<lparr>theirBalance := x\<rparr>) ]"

definition deserializeRevocationLog :: "byte list \<Rightarrow> error + RevocationLog" where
  "deserializeRevocationLog r =
     (case NewStream frameRecords of
        Inl err \<Rightarrow> Inl err
      | Inr tlvStream \<Rightarrow>
          (case readTlvStream r tlvStream
                  \<lparr> frame_rl = zeroRevocationLog, ourBalance = 0, theirBalance = 0 \<rparr> of
             Inl err \<Rightarrow> Inl err
           | Inr (f, parsedTypes, r') \<Rightarrow>
               (let rl1 =
                      (if parsedTypes revLogOurBalanceType = Some None
                       then (frame_rl f)\<lparr>OurBalance := Some (ourBalance f)\<rparr>
                       else frame_rl f);
                    rl2 =
                      (if parsedTypes revLogTheirBalanceType = Some None
                       then rl1\<lparr>TheirBalance := Some (theirBalance f)\<rparr>
                       else rl1)
                in case deserializeHTLCEntries r' of
                     Inl err \<Rightarrow> Inl err
                   | Inr htlcs \<Rightarrow> Inr (rl2\<lparr>HTLCEntries := htlcs\<rparr>))))"

section \<open>Storage\<close>

text \<open>
  Modelled from the spec: the kvdb package is not among the sources. Section 6: \<open>get\<close>
  returns the bytes or absent; \<open>put\<close> is an upsert; a nested namespace is opened by
  name, and is absent (\<open>nil\<close>) when it was never created; \<open>deleteNamespace\<close> removes a
  nested namespace with everything under it and is a no-op on an absent one. A channel
  bucket is the map of its nested buckets, a nested bucket the map of its keys.
\<close>

type_synonym bucket = "byte list \<rightharpoonup> byte list"

record chanBucket =
  nested :: "string \<rightharpoonup> bucket"

definition Get :: "bucket \<Rightarrow> byte list \<Rightarrow> byte list option" where
  "Get b key = b key"

definition Put :: "bucket \<Rightarrow> byte list \<Rightarrow> byte list \<Rightarrow> bucket" where
  "Put b key val = b(key \<mapsto> val)"

definition NestedReadBucket :: "chanBucket \<Rightarrow> string \<Rightarrow> bucket option" where
  "NestedReadBucket cb name = nested cb name"

definition NestedReadWriteBucket :: "chanBucket \<Rightarrow> string \<Rightarrow> bucket option" where
  "NestedReadWriteBucket cb name = nested cb name"

definition DeleteNestedBucket :: "chanBucket \<Rightarrow> string \<Rightarrow> chanBucket \<times> error option" where
  "DeleteNestedBucket cb name = (cb\<lparr>nested := (nested cb)(name := None)\<rparr>, None)"

definition revocationLogBucketDeprecated :: string where
  "revocationLogBucketDeprecated = ''revocation-log-key''"

definition revocationLogBucket :: string where
  "revocationLogBucket = ''revocation-log''"

text \<open>
  Modelled from the spec: \<open>makeLogKey\<close> is not among the sources. Section 4.6: the
  height as 8 bytes, big-endian.
\<close>

definition makeLogKey :: "64 word \<Rightarrow> byte list" where
  "makeLogKey updateNum = be64 updateNum"

section \<open>Writing, fetching and deleting revocation logs\<close>

text \<open>
  The loop of \<open>putRevocationLog\<close> over \<open>commit.Htlcs\<close>; \<open>math.MaxUint16\<close> is 65535.
\<close>

fun putRevocationLog_loop ::
  "(64 word \<Rightarrow> 64 word) \<Rightarrow> HTLC list \<Rightarrow> HTLCEntry list \<Rightarrow> error + HTLCEntry list" where
  "putRevocationLog_loop toSatoshis [] entries = Inr entries"
| "putRevocationLog_loop toSatoshis (htlc # htlcs) entries =
     (if sint (HTLC_OutputIndex htlc) < 0 then putRevocationLog_loop toSatoshis htlcs entries
      else if sint (HTLC_OutputIndex htlc) > 65535 then Inl ErrOutputIndexTooBig
      else putRevocationLog_loop toSatoshis htlcs
             (entries @ [NewHTLCEntryFromHTLC toSatoshis htlc]))"

text \<open>The result is the bucket after the call and the error, if any.\<close>

definition putRevocationLog ::
  "(64 word \<Rightarrow> 64 word) \<Rightarrow> bucket \<Rightarrow> ChannelCommitment \<Rightarrow> 32 word \<Rightarrow> 32 word \<Rightarrow> bool
     \<Rightarrow> bucket \<times> error option" where
  "putRevocationLog toSatoshis bucket commit ourOutputIndex theirOutputIndex noAmtData =
     (if ourOutputIndex > 65535 then (bucket, Some ErrOutputIndexTooBig)
      else if theirOutputIndex > 65535 then (bucket, Some ErrOutputIndexTooBig)
      else
        (let rl0 = \<lparr> OurOutputIndex = ucast ourOutputIndex,
                      TheirOutputIndex = ucast theirOutputIndex,
                      CommitTxHash = CommitTx_TxHash commit,
                      HTLCEntries = [],
                      OurBalance = None,
                      TheirBalance = None \<rparr>;
             rl1 = (if \<not> noAmtData
                    then rl0\<lparr>OurBalance := Some (LocalBalance commit),
                             TheirBalance := Some (RemoteBalance commit)\<rparr>
                    else rl0)
         in case putRevocationLog_loop toSatoshis (Htlcs commit) [] of
              Inl err \<Rightarrow> (bucket, Some err)
            | Inr entries \<Rightarrow>
                (case serializeRevocationLog (rl1\<lparr>HTLCEntries := entries\<rparr>) of
                   Inl err \<Rightarrow> (bucket, Some err)
                 | Inr b \<Rightarrow> (Put bucket (makeLogKey (CommitHeight commit)) b, None))))"

definition fetchRevocationLog :: "bucket \<Rightarrow> 64 word \<Rightarrow> error + RevocationLog" where
  "fetchRevocationLog log updateNum =
     (case Get log (makeLogKey updateNum) of
        None \<Rightarrow> Inl ErrLogEntryNotFound
      | Some commitBytes \<Rightarrow> deserializeRevocationLog commitBytes)"

text \<open>
  \<open>deserializeChanCommit\<close>, the decoder of the legacy format, is not among the sources
  and the spec leaves the format open: it is a parameter.
\<close>

definition fetchOldRevocationLog ::
  "(byte list \<Rightarrow> error + ChannelCommitment) \<Rightarrow> bucket \<Rightarrow> 64 word
     \<Rightarrow> error + ChannelCommitment" where
  "fetchOldRevocationLog deserializeChanCommit log updateNum =
     (case Get log (makeLogKey updateNum) of
        None \<Rightarrow> Inl ErrLogEntryNotFound
      | Some commitBytes \<Rightarrow> deserializeChanCommit commitBytes)"

text \<open>
  The three results of \<open>fetchRevocationLogCompatible\<close>: the log of the new bucket, the
  commitment of the old bucket, the error; \<open>None\<close> is \<open>nil\<close>.
\<close>

definition fetchRevocationLogCompatible ::
  "(byte list \<Rightarrow> error + ChannelCommitment) \<Rightarrow> chanBucket \<Rightarrow> 64 word
     \<Rightarrow> RevocationLog option \<times> ChannelCommitment option \<times> error option" where
  "fetchRevocationLogCompatible deserializeChanCommit chanBucket updateNum =
     (let logBucket = NestedReadBucket chanBucket revocationLogBucket;
          found =
            (case logBucket of
               None \<Rightarrow> None
             | Some log \<Rightarrow>
                 (case fetchRevocationLog log updateNum of
                    Inr rl \<Rightarrow> Some (Some rl, None, None)
                  | Inl err \<Rightarrow>
                      (if err \<noteq> ErrLogEntryNotFound then Some (None, None, Some err)
                       else None)))
      in case found of
           Some result \<Rightarrow> result
         | None \<Rightarrow>
             (let oldBucket = NestedReadBucket chanBucket revocationLogBucketDeprecated
              in case oldBucket of
                   Some log \<Rightarrow>
                     (case fetchOldRevocationLog deserializeChanCommit log updateNum of
                        Inl err \<Rightarrow> (None, None, Some err)
                      | Inr c \<Rightarrow> (None, Some c, None))
                 | None \<Rightarrow>
                     (if Option.is_none logBucket \<and> Option.is_none oldBucket
                      then (None, None, Some ErrNoPastDeltas)
                      else (None, None, Some ErrLogEntryNotFound))))"

definition deleteLogBucket :: "chanBucket \<Rightarrow> chanBucket \<times> error option" where
  "deleteLogBucket chanBucket =
     (let logBucket = NestedReadWriteBucket chanBucket revocationLogBucket;
          (cb1, err1) =
            (case logBucket of
               Some b \<Rightarrow> DeleteNestedBucket chanBucket revocationLogBucket
             | None \<Rightarrow> (chanBucket, None))
      in case err1 of
           Some err \<Rightarrow> (cb1, Some err)
         | None \<Rightarrow>
             (let oldLogBucket = NestedReadWriteBucket cb1 revocationLogBucketDeprecated;
                  (cb2, err2) =
                    (case oldLogBucket of
                       Some b \<Rightarrow> DeleteNestedBucket cb1 revocationLogBucketDeprecated
                     | None \<Rightarrow> (cb1, None))
              in case err2 of
                   Some err \<Rightarrow> (cb2, Some err)
                 | None \<Rightarrow> (cb2, None)))"

section \<open>Well-formed values\<close>

text \<open>
  \<open>[32]byte\<close> is modelled by a list, so the values of the Go types are the records
  whose hashes have 32 bytes.
\<close>

definition wf_HTLCEntry :: "HTLCEntry \<Rightarrow> bool" where
  "wf_HTLCEntry h = (length (RHash h) = 32)"

definition wf_RevocationLog :: "RevocationLog \<Rightarrow> bool" where
  "wf_RevocationLog x =
     (length (CommitTxHash x) = 32 \<and> list_all wf_HTLCEntry (HTLCEntries x))"

text \<open>
  The records that \<open>serializeRevocationLog\<close> hands to \<open>tlv.NewStream\<close>, and the type
  map that decoding them gives.
\<close>

definition headerRecords :: "RevocationLog \<Rightarrow> RevocationLog tlvRecord list" where
  "headerRecords x =
     [ MakePrimitiveRecord_uint16 revLogOurOutputIndexType
         OurOutputIndex (\<lambda>x s. s\<lparr>OurOutputIndex := x\<rparr>),
       MakePrimitiveRecord_uint16 revLogTheirOutputIndexType
         TheirOutputIndex (\<lambda>x s. s\<lparr>TheirOutputIndex := x\<rparr>),
       MakePrimitiveRecord_bytes32 revLogCommitTxHashType
         CommitTxHash (\<lambda>x s. s\<lparr>CommitTxHash := x\<rparr>) ]
     @ (case OurBalance x of None \<Rightarrow> []
        | Some lb \<Rightarrow> [MakeBigSizeRecord revLogOurBalanceType (\<lambda>_. lb) (\<lambda>_ s. s)])
     @ (case TheirBalance x of None \<Rightarrow> []
        | Some rb \<Rightarrow> [MakeBigSizeRecord revLogTheirBalanceType (\<lambda>_. rb) (\<lambda>_ s. s)])"

definition headerTypes :: "RevocationLog \<Rightarrow> TypeMap" where
  "headerTypes x =
     [0 \<mapsto> None, 1 \<mapsto> None, 2 \<mapsto> None]
       ++ (case OurBalance x of None \<Rightarrow> Map.empty | Some b \<Rightarrow> [3 \<mapsto> None])
       ++ (case TheirBalance x of None \<Rightarrow> Map.empty | Some b \<Rightarrow> [4 \<mapsto> None])"

text \<open>
  A revocation log with three HTLC entries, one of them with the zero hash and the
  amount zero, with our balance present and zero and their balance absent.
\<close>

definition exampleEntry :: HTLCEntry where
  "exampleEntry =
     \<lparr> RHash = replicate 32 7, RefundTimeout = 500000, OutputIndex = 3, Incoming = True,
       Amt = 70000 \<rparr>"

definition exampleSparseEntry :: HTLCEntry where
  "exampleSparseEntry =
     \<lparr> RHash = ZeroHash, RefundTimeout = 1, OutputIndex = 65535, Incoming = False, Amt = 0 \<rparr>"

definition exampleLog :: RevocationLog where
  "exampleLog =
     \<lparr> OurOutputIndex = 65535, TheirOutputIndex = 1, CommitTxHash = replicate 32 9,
       HTLCEntries = [exampleEntry, exampleSparseEntry, exampleEntry],
       OurBalance = Some 0, TheirBalance = None \<rparr>"

section \<open>What \<open>putRevocationLog\<close> stores\<close>

text \<open>
  An HTLC is dust when its output index is negative, and too big when its index is
  above \<open>math.MaxUint16\<close>. \<open>revLogOf\<close> is the log that \<open>putRevocationLog\<close> builds
  when no index is too big, \<open>serialized\<close> the bytes of a log.
\<close>

definition nonDust :: "HTLC \<Rightarrow> bool" where
  "nonDust htlc = (0 \<le> sint (HTLC_OutputIndex htlc))"

definition tooBig :: "HTLC \<Rightarrow> bool" where
  "tooBig htlc = (65535 < sint (HTLC_OutputIndex htlc))"

definition wf_ChannelCommitment :: "ChannelCommitment \<Rightarrow> bool" where
  "wf_ChannelCommitment c =
     (length (CommitTx_TxHash c) = 32 \<and> list_all (\<lambda>h. length (HTLC_RHash h) = 32) (Htlcs c))"

definition revLogOf ::
  "(64 word \<Rightarrow> 64 word) \<Rightarrow> ChannelCommitment \<Rightarrow> 32 word \<Rightarrow> 32 word \<Rightarrow> bool \<Rightarrow> RevocationLog" where
  "revLogOf toSatoshis commit ourOutputIndex theirOutputIndex noAmtData =
     \<lparr> OurOutputIndex = ucast ourOutputIndex,
       TheirOutputIndex = ucast theirOutputIndex,
       CommitTxHash = CommitTx_TxHash commit,
       HTLCEntries = map (NewHTLCEntryFromHTLC toSatoshis) (filter nonDust (Htlcs commit)),
       OurBalance = (if noAmtData then None else Some (LocalBalance commit)),
       TheirBalance = (if noAmtData then None else Some (RemoteBalance commit)) \<rparr>"

definition serialized :: "RevocationLog \<Rightarrow> byte list" where
  "serialized x =
     writeTlvStream (headerRecords x) x @ concat (map (writeTlvStream htlcRecords) (HTLCEntries x))"

text \<open>
  A commitment at height 10 with a dust HTLC, an HTLC at output index 65535 and an HTLC
  with the zero hash; \<open>ToSatoshis\<close> as division by 1000.
\<close>

definition toSat0 :: "64 word \<Rightarrow> 64 word" where
  "toSat0 m = m div 1000"

definition exampleDust :: HTLC where
  "exampleDust = \<lparr> HTLC_RHash = replicate 32 1, HTLC_RefundTimeout = 100,
     HTLC_OutputIndex = - 1, HTLC_Incoming = True, HTLC_Amt = 1000 \<rparr>"

definition exampleHtlcMax :: HTLC where
  "exampleHtlcMax = \<lparr> HTLC_RHash = replicate 32 2, HTLC_RefundTimeout = 200,
     HTLC_OutputIndex = 65535, HTLC_Incoming = False, HTLC_Amt = 2000000 \<rparr>"

definition exampleHtlc :: HTLC where
  "exampleHtlc = \<lparr> HTLC_RHash = ZeroHash, HTLC_RefundTimeout = 300,
     HTLC_OutputIndex = 3, HTLC_Incoming = True, HTLC_Amt = 0 \<rparr>"

definition exampleCommit :: ChannelCommitment where
  "exampleCommit = \<lparr> CommitHeight = 10, LocalBalance = 0, RemoteBalance = 5000,
     CommitTx_TxHash = replicate 32 9, Htlcs = [exampleDust, exampleHtlcMax, exampleHtlc] \<rparr>"

text \<open>
  Channel buckets for height 10: with a record in the old bucket only, with records in
  both buckets, with an empty value in the new bucket, and with neither bucket. The
  decoder of the old format is taken to return the example commitment.
\<close>

definition legacyDecoder :: "byte list \<Rightarrow> error + ChannelCommitment" where
  "legacyDecoder b = Inr exampleCommit"

definition chanLegacyOnly :: chanBucket where
  "chanLegacyOnly =
     \<lparr> nested = [revocationLogBucketDeprecated \<mapsto> [makeLogKey 10 \<mapsto> [1, 2, 3]]] \<rparr>"

definition chanBoth :: chanBucket where
  "chanBoth =
     \<lparr> nested = [revocationLogBucketDeprecated \<mapsto> [makeLogKey 10 \<mapsto> [1, 2, 3]],
                  revocationLogBucket \<mapsto> [makeLogKey 10 \<mapsto> serialized exampleLog]] \<rparr>"

definition chanCorrupt :: chanBucket where
  "chanCorrupt =
     \<lparr> nested = [revocationLogBucketDeprecated \<mapsto> [makeLogKey 10 \<mapsto> [1, 2, 3]],
                  revocationLogBucket \<mapsto> [makeLogKey 10 \<mapsto> []]] \<rparr>"

definition chanEmpty :: chanBucket where
  "chanEmpty = \<lparr> nested = Map.empty \<rparr>"

section \<open>Invariants of decoding\<close>

text \<open>
  No record of the header stream writes a balance of the result, and the type map never
  holds raw bytes for the tag of a balance: this holds all the way through the decoding
  of the header. \<open>fieldsFrom h T\<close> is the entry whose fields with a tag in \<open>T\<close>
  are those of \<open>h\<close> and whose other fields are still zero.
\<close>

definition headerInvariant :: "rlFrame \<Rightarrow> TypeMap \<Rightarrow> bool" where
  "headerInvariant f p =
     (OurBalance (frame_rl f) = None \<and> TheirBalance (frame_rl f) = None
      \<and> (p revLogOurBalanceType = None \<or> p revLogOurBalanceType = Some None)
      \<and> (p revLogTheirBalanceType = None \<or> p revLogTheirBalanceType = Some None))"

definition fieldsFrom :: "HTLCEntry \<Rightarrow> 64 word set \<Rightarrow> HTLCEntry" where
  "fieldsFrom h T =
     \<lparr> RHash = (if 0 \<in> T then RHash h else ZeroHash),
       RefundTimeout = (if 1 \<in> T then RefundTimeout h else 0),
       OutputIndex = (if 2 \<in> T then OutputIndex h else 0),
       Incoming = (if 3 \<in> T then Incoming h else False),
       Amt = (if 4 \<in> T then Amt h else 0) \<rparr>"

section \<open>Fields as they stand in the stored bytes\<close>

text \<open>
  Section 6 of the spec lays a stored value out as framed records, each a length and a
  body, and a body as fields, each a type, a length and a value. A field of a body is
  the field of a record, written as \<open>Stream.Encode\<close> writes it, or a field with another
  tag and any bytes as its value.
\<close>

datatype 'a field = Known "'a tlvRecord" | Unknown "64 word" "byte list"

fun encodeField :: "'a field \<Rightarrow> 'a \<Rightarrow> byte list" where
  "encodeField (Known rc) v = encodeRecord rc v"
| "encodeField (Unknown t val) v = WriteVarInt t @ WriteVarInt (of_nat (length val)) @ val"

fun encodeFields :: "'a field list \<Rightarrow> 'a \<Rightarrow> byte list" where
  "encodeFields [] v = []"
| "encodeFields (f # fs) v = encodeField f v @ encodeFields fs v"

fun knownRecords :: "'a field list \<Rightarrow> 'a tlvRecord list" where
  "knownRecords [] = []"
| "knownRecords (Known rc # fs) = rc # knownRecords fs"
| "knownRecords (Unknown t val # fs) = knownRecords fs"

fun unknownTags :: "'a field list \<Rightarrow> 64 word list" where
  "unknownTags [] = []"
| "unknownTags (Known rc # fs) = unknownTags fs"
| "unknownTags (Unknown t val # fs) = t # unknownTags fs"

text \<open>
  The framing of \<open>writeTlvStream\<close>: the length of the body as a variable-length integer,
  then the body.
\<close>

definition frame :: "byte list \<Rightarrow> byte list" where
  "frame body = WriteVarInt (of_nat (length body)) @ body"

text \<open>
  \<open>anyOrder recs v fs\<close>: the fields \<open>fs\<close> are those of the records \<open>recs\<close>, each of
  them at least once and in any order, with fields of tags other than 0 to 4 (the tags
  the decoding streams know) anywhere among them, and their bytes are fewer than
  \<open>2 ^ 63\<close>.
\<close>

definition anyOrder :: "'a tlvRecord list \<Rightarrow> 'a \<Rightarrow> 'a field list \<Rightarrow> bool" where
  "anyOrder recs v fs =
     (set (knownRecords fs) = set recs
      \<and> list_all (\<lambda>t. t \<notin> {0, 1, 2, 3, 4}) (unknownTags fs)
      \<and> length (encodeFields fs v) < 2 ^ 63)"

text \<open>
  Two readers of the layout of section 6, to say in which order the tags stand in
  written bytes: \<open>frames\<close> splits a stored value into the bodies of its framed records,
  and \<open>writtenTags\<close> lists the tags of the fields of a body, from first to last. Both
  give \<open>None\<close> for bytes that are not of that layout.
\<close>

function writtenTags :: "byte list \<Rightarrow> 64 word list option" where
  "writtenTags r =
     (case ReadVarInt r of
        Inl err \<Rightarrow> (if err = EOF then Some [] else None)
      | Inr (t, r1) \<Rightarrow>
          (case ReadVarInt r1 of
             Inl err \<Rightarrow> None
           | Inr (len, r2) \<Rightarrow>
               (if unat len \<le> length r2
                then map_option ((#) t) (writtenTags (drop (unat len) r2))
                else None)))"
  by pat_completeness auto
termination
proof -
  have shorter: "length rest < length r" if "ReadVarInt r = Inr (x, rest)" for r x rest
    using that
    by (cases r) (auto simp: ReadFull_def Let_def split: if_splits sum.splits)
  show ?thesis
  proof (relation "measure length", goal_cases)
    case 1
    show ?case by simp
  next
    case 2
    then show ?case by (auto dest!: shorter)
  qed
qed

declare writtenTags.simps [simp del]

function frames :: "byte list \<Rightarrow> byte list list option" where
  "frames r =
     (case ReadVarInt r of
        Inl err \<Rightarrow> (if err = EOF then Some [] else None)
      | Inr (n, r1) \<Rightarrow>
          (if unat n \<le> length r1
           then map_option ((#) (take (unat n) r1)) (frames (drop (unat n) r1))
           else None))"
  by pat_completeness auto
termination
proof -
  have shorter: "length rest < length r" if "ReadVarInt r = Inr (x, rest)" for r x rest
    using that
    by (cases r) (auto simp: ReadFull_def Let_def split: if_splits sum.splits)
  show ?thesis
  proof (relation "measure length", goal_cases)
    case 1
    show ?case by simp
  next
    case 2
    then show ?case by (auto dest!: shorter)
  qed
qed

declare frames.simps [simp del]

text \<open>
  \<open>frameFrom x T\<close> is the state of the header read in which the fields with a tag in
  \<open>T\<close> have been decoded from the log \<open>x\<close> and the others are still zero.
\<close>

definition frameFrom :: "RevocationLog \<Rightarrow> 64 word set \<Rightarrow> rlFrame" where
  "frameFrom x T =
     \<lparr> frame_rl =
         \<lparr> OurOutputIndex = (if 0 \<in> T then OurOutputIndex x else 0),
           TheirOutputIndex = (if 1 \<in> T then TheirOutputIndex x else 0),
           CommitTxHash = (if 2 \<in> T then CommitTxHash x else ZeroHash),
           HTLCEntries = [], OurBalance = None, TheirBalance = None \<rparr>,
       ourBalance = (if 3 \<in> T then (case OurBalance x of None \<Rightarrow> 0 | Some b \<Rightarrow> b) else 0),
       theirBalance = (if 4 \<in> T then (case TheirBalance x of None \<Rightarrow> 0 | Some b \<Rightarrow> b) else 0) \<rparr>"

text \<open>
  Fields out of order: a field with the unknown tag 7 first, then the fields of the
  records from the last to the first. The entries of the example log, the first with
  such fields, the second in the order of the encoder, the third in reverse order.
\<close>

definition shuffledFields :: "'a tlvRecord list \<Rightarrow> 'a field list" where
  "shuffledFields recs = Unknown 7 [1, 2, 3] # map Known (rev recs)"

definition examplePairs :: "(HTLCEntry field list \<times> HTLCEntry) list" where
  "examplePairs =
     [ (shuffledFields htlcRecords, exampleEntry),
       (map Known htlcRecords, exampleSparseEntry),
       (map Known (rev htlcRecords), exampleEntry) ]"

section \<open>Integers on the wire\<close>

lemma byte_of_word: "(ucast (ucast (w :: 'a::len word) :: 8 word) :: 'a word) = take_bit 8 w"
  by (rule bit_word_eqI) (auto simp: bit_simps)

lemma be_step:
  "push_bit 8 (take_bit m (drop_bit (k + 8) (w :: 'a::len word))) OR take_bit 8 (drop_bit k w)
     = take_bit (m + 8) (drop_bit k w)"
  by (rule bit_word_eqI) (auto simp: bit_simps ac_simps)

lemma de16_be16 [simp]: "de16 (be16 w) = w"
proof -
  have "de16 (be16 w) = take_bit 16 (drop_bit 0 w)"
    unfolding de16_def be16_def using be_step [of 8 0 w] by (simp add: byte_of_word)
  then show ?thesis by (simp add: take_bit_word_eq_self)
qed

lemma de32_be32 [simp]: "de32 (be32 w) = w"
proof -
  have "de32 (be32 w) = take_bit 32 (drop_bit 0 w)"
    unfolding de32_def be32_def
    using be_step [of 8 16 w] be_step [of 16 8 w] be_step [of 24 0 w]
    by (simp add: byte_of_word)
  then show ?thesis by (simp add: take_bit_word_eq_self)
qed

lemma de64_be64 [simp]: "de64 (be64 w) = w"
proof -
  have "de64 (be64 w) = take_bit 64 (drop_bit 0 w)"
    unfolding de64_def be64_def
    using be_step [of 8 48 w] be_step [of 16 40 w] be_step [of 24 32 w] be_step [of 32 24 w]
       be_step [of 40 16 w] be_step [of 48 8 w] be_step [of 56 0 w]
    by (simp add: byte_of_word)
  then show ?thesis by (simp add: take_bit_word_eq_self)
qed

lemma length_be [simp]: "length (be16 a) = 2" "length (be32 b) = 4" "length (be64 c) = 8"
  by (simp_all add: be16_def be32_def be64_def)

lemma ReadFull_append [simp]: "length bs = n \<Longrightarrow> ReadFull (bs @ rest) n = Inr bs"
  by (simp add: ReadFull_def)

lemma narrow8: "(n :: 64 word) < 0xfd \<Longrightarrow> ucast (ucast n :: 8 word) = n"
  by (simp add: word_less_nat_alt word_unat_eq_iff unsigned_ucast_eq take_bit_nat_eq_self unsigned_take_bit_eq)
lemma narrow8_less: "(n :: 64 word) < 0xfd \<Longrightarrow> (ucast n :: 8 word) < 0xfd"
  by (simp add: word_less_nat_alt unsigned_ucast_eq take_bit_nat_eq_self unsigned_take_bit_eq)
lemma narrow16: "(n :: 64 word) \<le> 0xffff \<Longrightarrow> ucast (ucast n :: 16 word) = n"
  by (simp add: word_le_nat_alt word_unat_eq_iff unsigned_ucast_eq take_bit_nat_eq_self unsigned_take_bit_eq)
lemma narrow32: "(n :: 64 word) \<le> 0xffffffff \<Longrightarrow> ucast (ucast n :: 32 word) = n"
  by (simp add: word_le_nat_alt word_unat_eq_iff unsigned_ucast_eq take_bit_nat_eq_self unsigned_take_bit_eq)

lemma ReadVarInt_WriteVarInt [simp]: "ReadVarInt (WriteVarInt n @ rest) = Inr (n, rest)"
proof -
  consider "n < 0xfd" | "\<not> n < 0xfd" "n \<le> 0xffff" | "\<not> n \<le> 0xffff" "n \<le> 0xffffffff"
    | "\<not> n \<le> 0xffffffff"
    by blast
  then show ?thesis
  proof cases
    case 1
    then show ?thesis by (simp add: WriteVarInt_def narrow8 narrow8_less)
  next
    case 2
    then show ?thesis by (simp add: WriteVarInt_def narrow16)
  next
    case 3
    have "\<not> n < 0xfd" using 3(1) by (simp add: word_less_nat_alt word_le_nat_alt)
    then show ?thesis using 3 by (simp add: WriteVarInt_def narrow32)
  next
    case 4
    have "\<not> n < 0xfd" "\<not> n \<le> 0xffff" using 4 by (simp_all add: word_less_nat_alt word_le_nat_alt)
    then show ?thesis using 4 by (simp add: WriteVarInt_def)
  qed
qed

lemma length_WriteVarInt: "1 \<le> length (WriteVarInt n)" "length (WriteVarInt n) \<le> 9"
  by (simp_all add: WriteVarInt_def)

section \<open>Decoding what was encoded\<close>

lemma decode_Nil [simp]: "decode s [] v p = Inr (v, p)"
  by (subst decode.simps) simp

lemma decode_field:
  "decode s (WriteVarInt t @ WriteVarInt len @ r2) v p =
     (case getRecord s t of
        Some rc \<Rightarrow>
          (case rec_decoder rc r2 len v of
             Inl err \<Rightarrow> (if err = EOF then Inl ErrUnexpectedEOF else Inl err)
           | Inr (v', n) \<Rightarrow> decode s (drop n r2) v' (p(t \<mapsto> None)))
      | None \<Rightarrow>
          (if unat len \<le> length r2
           then decode s (drop (unat len) r2) v (p(t \<mapsto> Some (take (unat len) r2)))
           else Inl ErrUnexpectedEOF))"
  by (subst decode.simps) simp

lemma decode_encodeRecord:
  "decode s (encodeRecord rc h @ rest) v p =
     (case getRecord s (rec_typ rc) of
        Some rc' \<Rightarrow>
          (case rec_decoder rc' (rec_encoder rc h @ rest) (rec_size rc h) v of
             Inl err \<Rightarrow> (if err = EOF then Inl ErrUnexpectedEOF else Inl err)
           | Inr (v', n) \<Rightarrow> decode s (drop n (rec_encoder rc h @ rest)) v' (p(rec_typ rc \<mapsto> None)))
      | None \<Rightarrow>
          (if unat (rec_size rc h) \<le> length (rec_encoder rc h @ rest)
           then decode s (drop (unat (rec_size rc h)) (rec_encoder rc h @ rest)) v
                  (p(rec_typ rc \<mapsto> Some (take (unat (rec_size rc h)) (rec_encoder rc h @ rest))))
           else Inl ErrUnexpectedEOF))"
  unfolding encodeRecord_def by (simp add: decode_field)

lemma drop_exact [simp]: "length bs = n \<Longrightarrow> drop n (bs @ rest) = rest"
  by simp

lemma DUint16_EUint16 [simp]: "DUint16 (EUint16 x @ rest) 2 v = Inr (x, 2)"
  by (simp add: DUint16_def EUint16_def)
lemma DUint32_EUint32 [simp]: "DUint32 (EUint32 x @ rest) 4 v = Inr (x, 4)"
  by (simp add: DUint32_def EUint32_def)
lemma DBool_EBool [simp]: "DBool (EBool x @ rest) 1 v = Inr (x, 1)"
  by (simp add: DBool_def EBool_def ReadFull_def)
lemma DBytes32_EBytes32 [simp]: "length x = 32 \<Longrightarrow> DBytes32 (EBytes32 x @ rest) 32 v = Inr (x, 32)"
  by (simp add: DBytes32_def EBytes32_def)
lemma DBigSize_EBigSize [simp]: "DBigSize (EBigSize x @ rest) l v = Inr (x, length (EBigSize x))"
  by (simp add: DBigSize_def EBigSize_def)
lemma sparseHash_roundtrip [simp]:
  "length x = 32 \<Longrightarrow> sparseHashDecoder (sparseHashEncoder x @ rest) (hashLen x) ZeroHash
      = Inr (x, length (sparseHashEncoder x))"
  by (simp add: sparseHashDecoder_def sparseHashEncoder_def hashLen_def EBytes32_def DBytes32_def)
lemma length_enc [simp]: "length (EUint16 a) = 2" "length (EUint32 b) = 4" "length (EBool c) = 1"
   "length (EBytes32 d) = length d"
  by (simp_all add: EUint16_def EUint32_def EBool_def EBytes32_def)

lemmas mk_defs = MakeDynamicRecord_def MakeStaticRecord_def
  MakePrimitiveRecord_uint32_def MakePrimitiveRecord_uint16_def MakePrimitiveRecord_bool_def
  MakeBigSizeRecord_def MakePrimitiveRecord_bytes32_def

lemma toTlvStream_eq: "toTlvStream = Inr htlcRecords"
  by (simp add: toTlvStream_def htlcRecords_def NewStream_def mk_defs)

lemma decode_htlc:
  assumes "length (RHash h) = 32"
  shows "decode htlcRecords (Encode htlcRecords h @ rest) zeroHTLCEntry p =
         decode htlcRecords rest h (p(0 \<mapsto> None, 1 \<mapsto> None, 2 \<mapsto> None, 3 \<mapsto> None, 4 \<mapsto> None))"
  using assms
  apply (cases h)
  apply (simp add: htlcRecords_def decode_encodeRecord getRecord_def mk_defs zeroHTLCEntry_def)
  done


lemma sint_of_nat_small:
  assumes "L < 2 ^ 63"
  shows "sint (of_nat L :: 64 word) = int L"
proof -
  have "sint (of_nat L :: 64 word) = (int L + 2 ^ 63) mod 2 ^ 64 - 2 ^ 63"
    using int_word_sint [of "int L", where ?'a = 64] by simp
  moreover have "(int L + 2 ^ 63) mod 2 ^ 64 = int L + 2 ^ 63"
    using assms by (intro mod_pos_pos_trivial) simp_all
  ultimately show ?thesis by simp
qed

lemma unat_of_nat_small:
  assumes "L < 2 ^ 63"
  shows "unat (of_nat L :: 64 word) = L"
proof -
  have "L < 2 ^ 64" using assms by (rule less_trans) simp
  then show ?thesis by (simp add: unat_of_nat)
qed

lemma readTlvStream_writeTlvStream:
  assumes "length (Encode s h) < 2 ^ 63"
  shows "readTlvStream (writeTlvStream s h @ rest) s' v =
     (case DecodeWithParsedTypes s' (Encode s h) v of
        Inl err \<Rightarrow> Inl err
      | Inr (v', p) \<Rightarrow> Inr (v', p, rest))"
proof -
  let ?b = "Encode s h"
  have n: "(if sint (of_nat (length ?b) :: 64 word) \<le> 0 then 0
            else unat (of_nat (length ?b) :: 64 word)) = length ?b"
    by (simp add: sint_of_nat_small [OF assms] unat_of_nat_small [OF assms])
  show ?thesis
    unfolding readTlvStream_def writeTlvStream_def Let_def
    by (simp only: append_assoc ReadVarInt_WriteVarInt sum.case prod.case n)
       (simp split: sum.split)
qed

lemma length_encodeRecord: "length (encodeRecord rc v) \<le> 18 + length (rec_encoder rc v)"
  using length_WriteVarInt(2) [of "rec_typ rc"] length_WriteVarInt(2) [of "rec_size rc v"]
  by (simp add: encodeRecord_def)

lemma length_Encode: "length (Encode recs v) \<le> (\<Sum>rc\<leftarrow>recs. 18 + length (rec_encoder rc v))"
proof (induction recs)
  case Nil
  show ?case by simp
next
  case (Cons rc recs)
  then show ?case using length_encodeRecord [of rc v] by simp
qed

lemma length_Encode_htlc:
  assumes "length (RHash h) = 32"
  shows "length (Encode htlcRecords h) < 2 ^ 63"
proof -
  have "length (Encode htlcRecords h) \<le> 200"
    using length_Encode [of htlcRecords h] length_WriteVarInt(2) [of "Amt h"] assms
    by (simp add: htlcRecords_def mk_defs sparseHashEncoder_def EBigSize_def split: if_splits)
  then show ?thesis by simp
qed

lemma readTlvStream_htlc:
  assumes "length (RHash h) = 32"
  shows "\<exists>p. readTlvStream (writeTlvStream htlcRecords h @ rest) htlcRecords zeroHTLCEntry
           = Inr (h, p, rest)"
  by (simp add: readTlvStream_writeTlvStream [OF length_Encode_htlc [OF assms]]
      DecodeWithParsedTypes_def decode_htlc [OF assms, of "[]", simplified])


lemma deserializeHTLCEntries_loop_Nil [simp]: "deserializeHTLCEntries_loop [] acc = Inr acc"
  by (subst deserializeHTLCEntries_loop.simps)
     (simp add: toTlvStream_eq readTlvStream_def)

lemma serializeHTLCEntries_eq:
  "serializeHTLCEntries hs = Inr (concat (map (writeTlvStream htlcRecords) hs))"
  by (induction hs) (simp_all add: toTlvStream_eq)

lemma deserializeHTLCEntries_loop_roundtrip:
  "list_all wf_HTLCEntry hs \<Longrightarrow>
   deserializeHTLCEntries_loop (concat (map (writeTlvStream htlcRecords) hs)) acc = Inr (acc @ hs)"
proof (induction hs arbitrary: acc)
  case Nil
  show ?case by simp
next
  case (Cons h hs)
  from Cons.prems have rest: "list_all wf_HTLCEntry hs" by simp
  from Cons.prems have wf: "length (RHash h) = 32" by (simp add: wf_HTLCEntry_def)
  obtain p where rd:
    "readTlvStream (writeTlvStream htlcRecords h @ concat (map (writeTlvStream htlcRecords) hs))
       htlcRecords zeroHTLCEntry = Inr (h, p, concat (map (writeTlvStream htlcRecords) hs))"
    using readTlvStream_htlc [OF wf] by blast
  show ?case
    by (subst deserializeHTLCEntries_loop.simps)
       (simp add: toTlvStream_eq rd Cons.IH [OF rest])
qed


lemmas revLog_types = revLogOurOutputIndexType_def revLogTheirOutputIndexType_def
  revLogCommitTxHashType_def revLogOurBalanceType_def revLogTheirBalanceType_def

lemma serializeRevocationLog_eq:
  "serializeRevocationLog x =
     Inr (writeTlvStream (headerRecords x) x @ concat (map (writeTlvStream htlcRecords) (HTLCEntries x)))"
  by (simp add: serializeRevocationLog_def headerRecords_def serializeHTLCEntries_eq NewStream_def
      mk_defs revLog_types Let_def split: option.split)

lemma NewStream_frameRecords: "NewStream frameRecords = Inr frameRecords"
  by (simp add: frameRecords_def NewStream_def mk_defs revLog_types)

lemma length_Encode_header:
  assumes "length (CommitTxHash x) = 32"
  shows "length (Encode (headerRecords x) x) < 2 ^ 63"
proof -
  have "length (Encode (headerRecords x) x) \<le> 200"
    using length_Encode [of "headerRecords x" x] assms
       length_WriteVarInt(2) [of "the (OurBalance x)"] length_WriteVarInt(2) [of "the (TheirBalance x)"]
    by (simp add: headerRecords_def mk_defs EBigSize_def split: option.splits)
  then show ?thesis by simp
qed

lemma headerTypes_balance:
  "headerTypes x revLogOurBalanceType = Some None \<longleftrightarrow> OurBalance x \<noteq> None"
  "headerTypes x revLogTheirBalanceType = Some None \<longleftrightarrow> TheirBalance x \<noteq> None"
  by (simp_all add: headerTypes_def revLog_types split: option.split)

lemma decode_header:
  assumes "length (CommitTxHash x) = 32"
  shows "decode frameRecords (Encode (headerRecords x) x @ rest)
            \<lparr> frame_rl = zeroRevocationLog, ourBalance = 0, theirBalance = 0 \<rparr> Map.empty =
         decode frameRecords rest
            \<lparr> frame_rl = x\<lparr>HTLCEntries := [], OurBalance := None, TheirBalance := None\<rparr>,
              ourBalance = (case OurBalance x of None \<Rightarrow> 0 | Some b \<Rightarrow> b),
              theirBalance = (case TheirBalance x of None \<Rightarrow> 0 | Some b \<Rightarrow> b) \<rparr>
            (headerTypes x)"
  using assms
  apply (cases x)
  apply (simp add: headerRecords_def frameRecords_def decode_encodeRecord getRecord_def
       mk_defs headerTypes_def
       zeroRevocationLog_def revLog_types split: option.split)
  done


lemma deserializeRevocationLog_alt:
  "deserializeRevocationLog r =
     (case readTlvStream r frameRecords
                  \<lparr> frame_rl = zeroRevocationLog, ourBalance = 0, theirBalance = 0 \<rparr> of
             Inl err \<Rightarrow> Inl err
           | Inr (f, parsedTypes, r') \<Rightarrow>
               (let rl1 =
                      (if parsedTypes revLogOurBalanceType = Some None
                       then (frame_rl f)\<lparr>OurBalance := Some (ourBalance f)\<rparr>
                       else frame_rl f);
                    rl2 =
                      (if parsedTypes revLogTheirBalanceType = Some None
                       then rl1\<lparr>TheirBalance := Some (theirBalance f)\<rparr>
                       else rl1)
                in case deserializeHTLCEntries r' of
                     Inl err \<Rightarrow> Inl err
                   | Inr htlcs \<Rightarrow> Inr (rl2\<lparr>HTLCEntries := htlcs\<rparr>)))"
  unfolding deserializeRevocationLog_def NewStream_frameRecords
  by simp

lemma readTlvStream_header:
  assumes "length (CommitTxHash x) = 32"
  shows "readTlvStream (writeTlvStream (headerRecords x) x @ rest) frameRecords
            \<lparr> frame_rl = zeroRevocationLog, ourBalance = 0, theirBalance = 0 \<rparr> =
         Inr (\<lparr> frame_rl = x\<lparr>HTLCEntries := [], OurBalance := None, TheirBalance := None\<rparr>,
                ourBalance = (case OurBalance x of None \<Rightarrow> 0 | Some b \<Rightarrow> b),
                theirBalance = (case TheirBalance x of None \<Rightarrow> 0 | Some b \<Rightarrow> b) \<rparr>,
              headerTypes x, rest)"
  by (simp add: readTlvStream_writeTlvStream [OF length_Encode_header [OF assms]]
      DecodeWithParsedTypes_def decode_header [OF assms, of "[]", simplified])

lemma deserialize_serialize:
  assumes "wf_RevocationLog x"
  shows "deserializeRevocationLog
           (writeTlvStream (headerRecords x) x @ concat (map (writeTlvStream htlcRecords) (HTLCEntries x)))
         = Inr x"
proof -
  from assms have len: "length (CommitTxHash x) = 32" and hs: "list_all wf_HTLCEntry (HTLCEntries x)"
    by (simp_all add: wf_RevocationLog_def)
  show ?thesis
    unfolding deserializeRevocationLog_alt readTlvStream_header [OF len]
    using deserializeHTLCEntries_loop_roundtrip [OF hs, of "[]"]
    by (cases x) (simp add: deserializeHTLCEntries_def headerTypes_balance Let_def split: option.split)
qed

lemma wf_exampleLog: "wf_RevocationLog exampleLog"
  by (simp add: wf_RevocationLog_def wf_HTLCEntry_def exampleLog_def exampleEntry_def
      exampleSparseEntry_def ZeroHash_def)

section \<open>Putting and fetching\<close>

lemma putRevocationLog_loop_eq:
  "putRevocationLog_loop f hs acc =
     (if list_ex tooBig hs then Inl ErrOutputIndexTooBig
      else Inr (acc @ map (NewHTLCEntryFromHTLC f) (filter nonDust hs)))"
  by (induction hs arbitrary: acc) (auto simp: tooBig_def nonDust_def)

lemma putRevocationLog_eq:
  "putRevocationLog f bucket commit our their noAmt =
     (if 65535 < our \<or> 65535 < their \<or> list_ex tooBig (Htlcs commit)
      then (bucket, Some ErrOutputIndexTooBig)
      else (Put bucket (makeLogKey (CommitHeight commit))
              (serialized (revLogOf f commit our their noAmt)), None))"
  by (simp add: putRevocationLog_def putRevocationLog_loop_eq serializeRevocationLog_eq
      revLogOf_def serialized_def Let_def)

lemma wf_revLogOf:
  "wf_ChannelCommitment commit \<Longrightarrow> wf_RevocationLog (revLogOf f commit our their noAmt)"
  by (simp add: wf_ChannelCommitment_def wf_RevocationLog_def revLogOf_def list_all_iff
      wf_HTLCEntry_def NewHTLCEntryFromHTLC_def)

lemma fetch_after_put:
  assumes "wf_RevocationLog x"
  shows "fetchRevocationLog (Put bucket (makeLogKey n) (serialized x)) n = Inr x"
  using deserialize_serialize [OF assms]
  by (simp add: fetchRevocationLog_def Put_def Get_def serialized_def)

lemma widen16: "(n :: 32 word) \<le> 65535 \<Longrightarrow> (ucast (ucast n :: 16 word) :: 32 word) = n"
  by (simp add: word_le_nat_alt word_unat_eq_iff unsigned_ucast_eq take_bit_nat_eq_self unsigned_take_bit_eq)

lemma sint_nonneg_uint:
  assumes "0 \<le> sint (n :: 32 word)"
  shows "sint n = uint n"
proof -
  have nb: "\<not> bit n 31" using assms bit_last_iff [of n] by simp
  have a: "sint n = take_bit 31 (uint n)"
    using nb by (simp add: sint_uint signed_take_bit_eq_if_positive bit_uint_iff)
  have "take_bit (Suc 31) (uint n) = take_bit 31 (uint n)"
    using nb take_bit_Suc_from_most [of 31 "uint n"] by (simp add: bit_uint_iff)
  moreover have "take_bit (Suc 31) (uint n) = uint n"
    using uint_bounded [of n] by (intro take_bit_int_eq_self) simp_all
  ultimately show ?thesis using a by simp
qed

lemma widen16_signed:
  assumes "0 \<le> sint (n :: 32 word)" "\<not> 65535 < sint n"
  shows "(ucast (ucast n :: 16 word) :: 32 word) = n"
proof -
  have "n \<le> 65535" using assms sint_nonneg_uint [OF assms(1)] by (simp add: word_le_def)
  then show ?thesis by (rule widen16)
qed

lemma list_ex_tooBig:
  "list_ex tooBig hs \<longleftrightarrow>
     (\<exists>h\<in>set hs. 0 \<le> sint (HTLC_OutputIndex h) \<and> 65535 < sint (HTLC_OutputIndex h))"
  by (force simp: list_ex_iff tooBig_def)

lemma stored_indices:
  "\<not> list_ex tooBig hs \<Longrightarrow>
   map (\<lambda>e. ucast (OutputIndex e)) (map (NewHTLCEntryFromHTLC f) (filter nonDust hs))
     = map HTLC_OutputIndex (filter nonDust hs)"
  by (induction hs) (auto simp: NewHTLCEntryFromHTLC_def nonDust_def tooBig_def widen16_signed)

lemmas example_defs = exampleCommit_def exampleDust_def exampleHtlcMax_def exampleHtlc_def

lemma wf_exampleCommit: "wf_ChannelCommitment exampleCommit"
  by (simp add: wf_ChannelCommitment_def example_defs ZeroHash_def)

lemma bucket_names_differ: "revocationLogBucket \<noteq> revocationLogBucketDeprecated"
  by (simp add: revocationLogBucket_def revocationLogBucketDeprecated_def)

lemma deserialize_serialized: "wf_RevocationLog x \<Longrightarrow> deserializeRevocationLog (serialized x) = Inr x"
  by (simp add: serialized_def deserialize_serialize)

lemma deserialize_Nil: "deserializeRevocationLog [] = Inl ErrUnexpectedEOF"
  by (simp add: deserializeRevocationLog_alt readTlvStream_def)

lemma makeLogKey_5_10: "makeLogKey 5 \<noteq> makeLogKey 10"
  by (simp add: makeLogKey_def be64_def)

section \<open>Properties of the decoder\<close>

lemma getRecord_mem: "getRecord s t = Some rc \<Longrightarrow> rc \<in> set s"
  by (auto simp: getRecord_def find_Some_iff)

lemma decode_invariant2:
  "(\<And>rc t r l v p v' n.
       getRecord s t = Some rc \<Longrightarrow> P v p \<Longrightarrow> rec_decoder rc r l v = Inr (v', n)
         \<Longrightarrow> P v' (p(t \<mapsto> None)))
     \<Longrightarrow> (\<And>t v p bs. getRecord s t = None \<Longrightarrow> P v p \<Longrightarrow> P v (p(t \<mapsto> Some bs)))
     \<Longrightarrow> P v p \<Longrightarrow> decode s r v p = Inr (w, q) \<Longrightarrow> P w q"
proof (induction s r v p rule: decode.induct)
  case (1 s r v p)
  note step = "1.prems"(1) and skip = "1.prems"(2) and Pv = "1.prems"(3) and res = "1.prems"(4)
  show ?case
  proof (cases "ReadVarInt r")
    case (Inl e)
    with res Pv show ?thesis
      by (subst (asm) decode.simps) (auto split: if_splits)
  next
    case (Inr a)
    obtain t r1 where a: "(t, r1) = a" by (cases a) auto
    show ?thesis
    proof (cases "ReadVarInt r1")
      case (Inl e)
      with Inr a res show ?thesis
        by (subst (asm) decode.simps) (auto split: if_splits)
    next
      case b': (Inr b)
      obtain len r2 where b: "(len, r2) = b" by (cases b) auto
      have R1: "ReadVarInt r = Inr (t, r1)" and R2: "ReadVarInt r1 = Inr (len, r2)"
        using Inr a b' b by simp_all
      have unf: "decode s r v p =
         (case getRecord s t of
            Some rc \<Rightarrow>
              (case rec_decoder rc r2 len v of
                 Inl err \<Rightarrow> (if err = EOF then Inl ErrUnexpectedEOF else Inl err)
               | Inr (v', n) \<Rightarrow> decode s (drop n r2) v' (p(t \<mapsto> None)))
          | None \<Rightarrow>
              (if unat len \<le> length r2
               then decode s (drop (unat len) r2) v (p(t \<mapsto> Some (take (unat len) r2)))
               else Inl ErrUnexpectedEOF))"
        by (subst decode.simps) (simp add: R1 R2)
      show ?thesis
      proof (cases "getRecord s t")
        case None
        with unf res
        have le: "unat len \<le> length r2"
          and d: "decode s (drop (unat len) r2) v (p(t \<mapsto> Some (take (unat len) r2))) = Inr (w, q)"
          by (auto split: if_splits)
        show ?thesis
          using "1.IH"(1) [OF Inr a b' b None le _ _ skip [OF None Pv] d] step skip by blast
      next
        case (Some rc)
        show ?thesis
        proof (cases "rec_decoder rc r2 len v")
          case (Inl e)
          with unf Some res show ?thesis
            by (auto split: if_splits)
        next
          case c': (Inr c)
          obtain v' n where c: "(v', n) = c" by (cases c) auto
          from unf Some c' c res
          have d: "decode s (drop n r2) v' (p(t \<mapsto> None)) = Inr (w, q)"
            by auto
          have Pv': "P v' (p(t \<mapsto> None))"
          proof -
            from c' c have "rec_decoder rc r2 len v = Inr (v', n)" by simp
            then show ?thesis by (rule step [OF Some Pv])
          qed
          show ?thesis
            using "1.IH"(2) [OF Inr a b' b Some c' c _ _ Pv' d] step skip by blast
        qed
      qed
    qed
  qed
qed




lemma headerInvariant_known:
  assumes "getRecord frameRecords t = Some rc" "headerInvariant f p"
    "rec_decoder rc r l f = Inr (f', n)"
  shows "headerInvariant f' (p(t \<mapsto> None))"
  using assms
  by (auto simp: getRecord_def frameRecords_def mk_defs headerInvariant_def
      split: sum.splits if_splits)

lemma headerInvariant_unknown:
  assumes "getRecord frameRecords t = None" "headerInvariant f p"
  shows "headerInvariant f (p(t \<mapsto> Some bs))"
  using assms
  by (auto simp: getRecord_def frameRecords_def mk_defs headerInvariant_def revLog_types
      split: if_splits)

lemma readTlvStream_header_invariant:
  assumes "readTlvStream r frameRecords
             \<lparr> frame_rl = zeroRevocationLog, ourBalance = 0, theirBalance = 0 \<rparr> = Inr (f, p, r')"
  shows "headerInvariant f p"
proof -
  from assms obtain n r1 where rv: "ReadVarInt r = Inr (n, r1)"
    by (auto simp: readTlvStream_def split: sum.splits if_splits)
  define k where "k = (if sint n \<le> 0 then 0 else unat n)"
  from assms rv have d:
    "decode frameRecords (take k r1)
       \<lparr> frame_rl = zeroRevocationLog, ourBalance = 0, theirBalance = 0 \<rparr> Map.empty = Inr (f, p)"
    by (auto simp: readTlvStream_def DecodeWithParsedTypes_def Let_def k_def
        split: sum.splits prod.splits if_splits)
  show ?thesis
  proof (rule decode_invariant2 [where s = frameRecords and P = headerInvariant])
    show "headerInvariant v' (p(t \<mapsto> None))"
      if "getRecord frameRecords t = Some rc" "headerInvariant v p"
        "rec_decoder rc r l v = Inr (v', n)"
      for rc t r l v p v' n
      using that by (rule headerInvariant_known)
    show "headerInvariant v (p(t \<mapsto> Some bs))"
      if "getRecord frameRecords t = None" "headerInvariant v p" for t v p bs
      using that by (rule headerInvariant_unknown)
    show "headerInvariant \<lparr> frame_rl = zeroRevocationLog, ourBalance = 0, theirBalance = 0 \<rparr>
            Map.empty"
      by (simp add: headerInvariant_def zeroRevocationLog_def)
    show "decode frameRecords (take k r1)
       \<lparr> frame_rl = zeroRevocationLog, ourBalance = 0, theirBalance = 0 \<rparr> Map.empty = Inr (f, p)"
      by (fact d)
  qed
qed

lemma fieldsFrom_empty: "fieldsFrom h {} = zeroHTLCEntry"
  by (simp add: fieldsFrom_def zeroHTLCEntry_def)

lemma fieldsFrom_all: "fieldsFrom h (rec_typ ` set htlcRecords) = h"
  by (simp add: fieldsFrom_def htlcRecords_def mk_defs)

lemma decode_htlc_field:
  assumes "rc \<in> set htlcRecords" "length (RHash h) = 32"
  shows "decode htlcRecords (encodeRecord rc h @ rest) (fieldsFrom h T) p =
         decode htlcRecords rest (fieldsFrom h (insert (rec_typ rc) T)) (p(rec_typ rc \<mapsto> None))"
proof -
  from assms(1) consider
      "rc = htlcRecords ! 0" | "rc = htlcRecords ! 1" | "rc = htlcRecords ! 2"
    | "rc = htlcRecords ! 3" | "rc = htlcRecords ! 4"
    by (auto simp: htlcRecords_def)
  then show ?thesis
  proof cases
    case 1
    then show ?thesis using assms(2)
      by (simp add: htlcRecords_def decode_encodeRecord getRecord_def mk_defs fieldsFrom_def
          sparseHashDecoder_def sparseHashEncoder_def hashLen_def EBytes32_def DBytes32_def)
  next
    case 2
    then show ?thesis
      by (simp add: htlcRecords_def decode_encodeRecord getRecord_def mk_defs fieldsFrom_def)
  next
    case 3
    then show ?thesis
      by (simp add: htlcRecords_def decode_encodeRecord getRecord_def mk_defs fieldsFrom_def)
  next
    case 4
    then show ?thesis
      by (simp add: htlcRecords_def decode_encodeRecord getRecord_def mk_defs fieldsFrom_def)
  next
    case 5
    then show ?thesis
      by (simp add: htlcRecords_def decode_encodeRecord getRecord_def mk_defs fieldsFrom_def)
  qed
qed

lemma headerRecords_types:
  "map rec_typ (headerRecords x) =
     [0, 1, 2] @ (case OurBalance x of None \<Rightarrow> [] | Some b \<Rightarrow> [3])
       @ (case TheirBalance x of None \<Rightarrow> [] | Some b \<Rightarrow> [4])"
  by (simp add: headerRecords_def mk_defs revLog_types split: option.split)

lemma decode_unknown_field:
  assumes "getRecord s t = None" "unat len = length val"
  shows "decode s (WriteVarInt t @ WriteVarInt len @ val @ rest) v p =
         decode s rest v (p(t \<mapsto> Some val))"
  using assms by (simp add: decode_field)

lemma getRecord_htlcRecords_None:
  "t \<notin> {0, 1, 2, 3, 4} \<Longrightarrow> getRecord htlcRecords t = None"
  by (auto simp: getRecord_def htlcRecords_def mk_defs)






lemma deserializeHTLCEntries_loop_step:
  "deserializeHTLCEntries_loop r acc =
     (case readTlvStream r htlcRecords zeroHTLCEntry of
        Inl err \<Rightarrow> (if err = ErrUnexpectedEOF then Inr acc else Inl err)
      | Inr (htlc, parsedTypes, r') \<Rightarrow> deserializeHTLCEntries_loop r' (acc @ [htlc]))"
  by (subst deserializeHTLCEntries_loop.simps) (simp add: toTlvStream_eq)

lemma sparseHashDecoder_any_length:
  "l \<noteq> 0 \<Longrightarrow> 32 \<le> length r \<Longrightarrow> sparseHashDecoder r l v = Inr (take 32 r, 32)"
  by (simp add: sparseHashDecoder_def DBytes32_def ReadFull_def)

section \<open>Fields in any order\<close>

lemma writeTlvStream_frame: "writeTlvStream s v = frame (Encode s v)"
  by (simp add: writeTlvStream_def frame_def Let_def)

lemma encodeFields_Known: "encodeFields (map Known recs) v = Encode recs v"
  by (induction recs) simp_all

lemma knownRecords_Known [simp]: "knownRecords (map Known recs @ fs) = recs @ knownRecords fs"
  by (induction recs) simp_all

lemma unknownTags_Known [simp]: "unknownTags (map Known recs @ fs) = unknownTags fs"
  by (induction recs) simp_all

lemma readTlvStream_frame:
  assumes "length body < 2 ^ 63"
  shows "readTlvStream (frame body @ rest) s v =
     (case DecodeWithParsedTypes s body v of
        Inl err \<Rightarrow> Inl err
      | Inr (v', p) \<Rightarrow> Inr (v', p, rest))"
proof -
  have n: "(if sint (of_nat (length body) :: 64 word) \<le> 0 then 0
            else unat (of_nat (length body) :: 64 word)) = length body"
    by (simp add: sint_of_nat_small [OF assms] unat_of_nat_small [OF assms])
  show ?thesis
    unfolding readTlvStream_def frame_def Let_def
    by (simp only: append_assoc ReadVarInt_WriteVarInt sum.case prod.case n)
       (simp split: sum.split)
qed

lemma decode_htlc_fieldlist:
  assumes len: "length (RHash h) = 32"
  shows "set (knownRecords fs) \<subseteq> set htlcRecords
     \<Longrightarrow> list_all (\<lambda>t. getRecord htlcRecords t = None) (unknownTags fs)
     \<Longrightarrow> length (encodeFields fs h) < 2 ^ 64
     \<Longrightarrow> \<exists>q. decode htlcRecords (encodeFields fs h @ rest) (fieldsFrom h T) p =
             decode htlcRecords rest (fieldsFrom h (T \<union> rec_typ ` set (knownRecords fs))) q"
proof (induction fs arbitrary: T p)
  case Nil
  show ?case by auto
next
  case (Cons f fs)
  show ?case
  proof (cases f)
    case (Known rc)
    with Cons.prems have rc: "rc \<in> set htlcRecords"
      and sub: "set (knownRecords fs) \<subseteq> set htlcRecords"
      and un: "list_all (\<lambda>t. getRecord htlcRecords t = None) (unknownTags fs)"
      and le: "length (encodeFields fs h) < 2 ^ 64"
      by simp_all
    from Cons.IH [OF sub un le, of "insert (rec_typ rc) T" "p(rec_typ rc \<mapsto> None)"]
    obtain q where
      "decode htlcRecords (encodeFields fs h @ rest) (fieldsFrom h (insert (rec_typ rc) T))
          (p(rec_typ rc \<mapsto> None)) =
       decode htlcRecords rest
          (fieldsFrom h (insert (rec_typ rc) T \<union> rec_typ ` set (knownRecords fs))) q" ..
    then show ?thesis
      using decode_htlc_field [OF rc len, of "encodeFields fs h @ rest" T p] Known by auto
  next
    case (Unknown t val)
    with Cons.prems have g: "getRecord htlcRecords t = None"
      and sub: "set (knownRecords fs) \<subseteq> set htlcRecords"
      and un: "list_all (\<lambda>t. getRecord htlcRecords t = None) (unknownTags fs)"
      and le: "length (encodeFields fs h) < 2 ^ 64"
      and lv: "length val < 2 ^ 64"
      by simp_all
    have u: "unat (of_nat (length val) :: 64 word) = length val"
      using lv by (simp add: unat_of_nat)
    from Cons.IH [OF sub un le, of T "p(t \<mapsto> Some val)"]
    obtain q where
      "decode htlcRecords (encodeFields fs h @ rest) (fieldsFrom h T) (p(t \<mapsto> Some val)) =
       decode htlcRecords rest (fieldsFrom h (T \<union> rec_typ ` set (knownRecords fs))) q" ..
    then show ?thesis
      using decode_unknown_field [OF g u, of "encodeFields fs h @ rest" "fieldsFrom h T" p] Unknown
      by auto
  qed
qed

lemma readTlvStream_htlc_anyOrder:
  assumes "wf_HTLCEntry h" "anyOrder htlcRecords h fs"
  shows "\<exists>q. readTlvStream (frame (encodeFields fs h) @ rest) htlcRecords zeroHTLCEntry
            = Inr (h, q, rest)"
proof -
  from assms(1) have len: "length (RHash h) = 32" by (simp add: wf_HTLCEntry_def)
  from assms(2) have k: "set (knownRecords fs) = set htlcRecords"
    and un': "list_all (\<lambda>t. t \<notin> {0, 1, 2, 3, 4}) (unknownTags fs)"
    and le: "length (encodeFields fs h) < 2 ^ 63"
    by (simp_all add: anyOrder_def)
  from un' have un: "list_all (\<lambda>t. getRecord htlcRecords t = None) (unknownTags fs)"
    by (auto simp: list_all_iff intro: getRecord_htlcRecords_None)
  from le have le': "length (encodeFields fs h) < 2 ^ 64" by (rule less_trans) simp
  from k have sub: "set (knownRecords fs) \<subseteq> set htlcRecords" by simp
  from decode_htlc_fieldlist [OF len sub un le', of "[]" "{}" Map.empty]
  obtain q where "decode htlcRecords (encodeFields fs h) zeroHTLCEntry Map.empty = Inr (h, q)"
    by (auto simp: fieldsFrom_empty k fieldsFrom_all)
  then show ?thesis
    by (simp add: readTlvStream_frame [OF le] DecodeWithParsedTypes_def)
qed

lemma deserializeHTLCEntries_loop_anyOrder:
  "list_all (\<lambda>(fs, h). wf_HTLCEntry h \<and> anyOrder htlcRecords h fs) pairs \<Longrightarrow>
   deserializeHTLCEntries_loop (concat (map (\<lambda>(fs, h). frame (encodeFields fs h)) pairs)) acc
     = Inr (acc @ map snd pairs)"
proof (induction pairs arbitrary: acc)
  case Nil
  show ?case by simp
next
  case (Cons a pairs)
  obtain fs h where a: "a = (fs, h)" by (cases a)
  from Cons.prems a have wf: "wf_HTLCEntry h" and ao: "anyOrder htlcRecords h fs"
    and rest: "list_all (\<lambda>(fs, h). wf_HTLCEntry h \<and> anyOrder htlcRecords h fs) pairs"
    by simp_all
  from readTlvStream_htlc_anyOrder [OF wf ao]
  obtain q where rd:
    "readTlvStream (frame (encodeFields fs h)
        @ concat (map (\<lambda>(fs, h). frame (encodeFields fs h)) pairs)) htlcRecords zeroHTLCEntry
       = Inr (h, q, concat (map (\<lambda>(fs, h). frame (encodeFields fs h)) pairs))"
    by blast
  show ?case
    by (subst deserializeHTLCEntries_loop_step) (simp add: a rd Cons.IH [OF rest])
qed

lemma frameFrom_empty:
  "frameFrom x {} = \<lparr> frame_rl = zeroRevocationLog, ourBalance = 0, theirBalance = 0 \<rparr>"
  by (simp add: frameFrom_def zeroRevocationLog_def)

lemma frameFrom_all:
  "frameFrom x (rec_typ ` set (headerRecords x)) =
     \<lparr> frame_rl = x\<lparr>HTLCEntries := [], OurBalance := None, TheirBalance := None\<rparr>,
       ourBalance = (case OurBalance x of None \<Rightarrow> 0 | Some b \<Rightarrow> b),
       theirBalance = (case TheirBalance x of None \<Rightarrow> 0 | Some b \<Rightarrow> b) \<rparr>"
  by (cases x) (simp add: frameFrom_def headerRecords_def mk_defs revLog_types split: option.split)

lemma headerRecords_tags:
  "3 \<in> rec_typ ` set (headerRecords x) \<longleftrightarrow> OurBalance x \<noteq> None"
  "4 \<in> rec_typ ` set (headerRecords x) \<longleftrightarrow> TheirBalance x \<noteq> None"
  by (cases "OurBalance x"; cases "TheirBalance x";
      simp add: headerRecords_def mk_defs revLog_types)+

lemma decode_header_field:
  assumes "rc \<in> set (headerRecords x)" "length (CommitTxHash x) = 32"
  shows "decode frameRecords (encodeRecord rc x @ rest) (frameFrom x T) p =
         decode frameRecords rest (frameFrom x (insert (rec_typ rc) T)) (p(rec_typ rc \<mapsto> None))"
proof -
  from assms(1) consider
      "rc = MakePrimitiveRecord_uint16 revLogOurOutputIndexType
         OurOutputIndex (\<lambda>x s. s\<lparr>OurOutputIndex := x\<rparr>)"
    | "rc = MakePrimitiveRecord_uint16 revLogTheirOutputIndexType
         TheirOutputIndex (\<lambda>x s. s\<lparr>TheirOutputIndex := x\<rparr>)"
    | "rc = MakePrimitiveRecord_bytes32 revLogCommitTxHashType
         CommitTxHash (\<lambda>x s. s\<lparr>CommitTxHash := x\<rparr>)"
    | lb where "OurBalance x = Some lb"
        "rc = MakeBigSizeRecord revLogOurBalanceType (\<lambda>_. lb) (\<lambda>_ s. s)"
    | rb where "TheirBalance x = Some rb"
        "rc = MakeBigSizeRecord revLogTheirBalanceType (\<lambda>_. rb) (\<lambda>_ s. s)"
    by (cases "OurBalance x"; cases "TheirBalance x") (auto simp: headerRecords_def)
  then show ?thesis
  proof cases
    case 1
    then show ?thesis
      by (simp add: frameRecords_def decode_encodeRecord getRecord_def mk_defs frameFrom_def
          revLog_types)
  next
    case 2
    then show ?thesis
      by (simp add: frameRecords_def decode_encodeRecord getRecord_def mk_defs frameFrom_def
          revLog_types)
  next
    case 3
    then show ?thesis using assms(2)
      by (simp add: frameRecords_def decode_encodeRecord getRecord_def mk_defs frameFrom_def
          revLog_types)
  next
    case 4
    then show ?thesis
      by (simp add: frameRecords_def decode_encodeRecord getRecord_def mk_defs frameFrom_def
          revLog_types)
  next
    case 5
    then show ?thesis
      by (simp add: frameRecords_def decode_encodeRecord getRecord_def mk_defs frameFrom_def
          revLog_types)
  qed
qed

lemma getRecord_frameRecords_None:
  "getRecord frameRecords t = None \<Longrightarrow> t \<noteq> 3 \<and> t \<noteq> 4"
  by (auto simp: getRecord_def frameRecords_def mk_defs revLog_types split: if_splits)

lemma getRecord_header_frame:
  "getRecord (headerRecords x) t = None \<Longrightarrow> t \<notin> {0, 1, 2} "
  by (auto simp: getRecord_def headerRecords_def mk_defs revLog_types split: if_splits)

lemma decode_header_fieldlist:
  assumes len: "length (CommitTxHash x) = 32"
  shows "set (knownRecords fs) \<subseteq> set (headerRecords x)
     \<Longrightarrow> list_all (\<lambda>t. getRecord frameRecords t = None) (unknownTags fs)
     \<Longrightarrow> length (encodeFields fs x) < 2 ^ 64
     \<Longrightarrow> \<exists>q. decode frameRecords (encodeFields fs x @ rest) (frameFrom x T) p =
             decode frameRecords rest (frameFrom x (T \<union> rec_typ ` set (knownRecords fs))) q
           \<and> q 3 = (if 3 \<in> rec_typ ` set (knownRecords fs) then Some None else p 3)
           \<and> q 4 = (if 4 \<in> rec_typ ` set (knownRecords fs) then Some None else p 4)"
proof (induction fs arbitrary: T p)
  case Nil
  show ?case by auto
next
  case (Cons f fs)
  show ?case
  proof (cases f)
    case (Known rc)
    with Cons.prems have rc: "rc \<in> set (headerRecords x)"
      and sub: "set (knownRecords fs) \<subseteq> set (headerRecords x)"
      and un: "list_all (\<lambda>t. getRecord frameRecords t = None) (unknownTags fs)"
      and le: "length (encodeFields fs x) < 2 ^ 64"
      by simp_all
    from Cons.IH [OF sub un le, of "insert (rec_typ rc) T" "p(rec_typ rc \<mapsto> None)"]
    obtain q where
      "decode frameRecords (encodeFields fs x @ rest) (frameFrom x (insert (rec_typ rc) T))
          (p(rec_typ rc \<mapsto> None)) =
       decode frameRecords rest
          (frameFrom x (insert (rec_typ rc) T \<union> rec_typ ` set (knownRecords fs))) q"
      "q 3 = (if 3 \<in> rec_typ ` set (knownRecords fs) then Some None
              else (p(rec_typ rc \<mapsto> None)) 3)"
      "q 4 = (if 4 \<in> rec_typ ` set (knownRecords fs) then Some None
              else (p(rec_typ rc \<mapsto> None)) 4)"
      by blast
    then show ?thesis
      using decode_header_field [OF rc len, of "encodeFields fs x @ rest" T p] Known by auto
  next
    case (Unknown t val)
    with Cons.prems have g: "getRecord frameRecords t = None"
      and sub: "set (knownRecords fs) \<subseteq> set (headerRecords x)"
      and un: "list_all (\<lambda>t. getRecord frameRecords t = None) (unknownTags fs)"
      and le: "length (encodeFields fs x) < 2 ^ 64"
      and lv: "length val < 2 ^ 64"
      by simp_all
    have u: "unat (of_nat (length val) :: 64 word) = length val"
      using lv by (simp add: unat_of_nat)
    from Cons.IH [OF sub un le, of T "p(t \<mapsto> Some val)"]
    obtain q where
      "decode frameRecords (encodeFields fs x @ rest) (frameFrom x T) (p(t \<mapsto> Some val)) =
       decode frameRecords rest (frameFrom x (T \<union> rec_typ ` set (knownRecords fs))) q"
      "q 3 = (if 3 \<in> rec_typ ` set (knownRecords fs) then Some None
              else (p(t \<mapsto> Some val)) 3)"
      "q 4 = (if 4 \<in> rec_typ ` set (knownRecords fs) then Some None
              else (p(t \<mapsto> Some val)) 4)"
      by blast
    then show ?thesis
      using decode_unknown_field [OF g u, of "encodeFields fs x @ rest" "frameFrom x T" p]
        Unknown getRecord_frameRecords_None [OF g]
      by auto
  qed
qed

lemma writtenTags_Nil [simp]: "writtenTags [] = Some []"
  by (subst writtenTags.simps) simp

lemma frames_Nil [simp]: "frames [] = Some []"
  by (subst frames.simps) simp

lemma frames_frame:
  assumes "length body < 2 ^ 63"
  shows "frames (frame body @ rest) = map_option ((#) body) (frames rest)"
  by (subst frames.simps) (simp add: frame_def unat_of_nat_small [OF assms])

lemma writtenTags_encodeRecord:
  assumes "unat (rec_size rc v) = length (rec_encoder rc v)"
  shows "writtenTags (encodeRecord rc v @ rest) = map_option ((#) (rec_typ rc)) (writtenTags rest)"
  by (subst writtenTags.simps) (simp add: encodeRecord_def assms)

lemma unat_VarIntSize: "unat (VarIntSize x) = length (WriteVarInt x)"
  using length_WriteVarInt(2) [of x] by (simp add: VarIntSize_def unat_of_nat)

lemma writtenTags_Encode:
  "list_all (\<lambda>rc. unat (rec_size rc v) = length (rec_encoder rc v)) recs \<Longrightarrow>
   writtenTags (Encode recs v @ rest) = map_option ((@) (map rec_typ recs)) (writtenTags rest)"
proof (induction recs)
  case Nil
  show ?case by (simp add: option.map_ident)
next
  case (Cons rc recs)
  then show ?case
    by (simp add: writtenTags_encodeRecord option.map_comp comp_def)
qed

lemma writtenTags_htlc:
  assumes "length (RHash h) = 32"
  shows "writtenTags (Encode htlcRecords h) = Some [0, 1, 2, 3, 4]"
proof -
  have "list_all (\<lambda>rc. unat (rec_size rc h) = length (rec_encoder rc h)) htlcRecords"
    using assms
    by (simp add: htlcRecords_def mk_defs hashLen_def sparseHashEncoder_def EBytes32_def
        unat_VarIntSize EBigSize_def)
  from writtenTags_Encode [OF this, of "[]"] show ?thesis
    by (simp add: htlcRecords_def mk_defs)
qed

lemma writtenTags_header:
  assumes "length (CommitTxHash x) = 32"
  shows "writtenTags (Encode (headerRecords x) x) =
     Some ([0, 1, 2] @ (case OurBalance x of None \<Rightarrow> [] | Some b \<Rightarrow> [3])
             @ (case TheirBalance x of None \<Rightarrow> [] | Some b \<Rightarrow> [4]))"
proof -
  have "list_all (\<lambda>rc. unat (rec_size rc x) = length (rec_encoder rc x)) (headerRecords x)"
    using assms
    by (simp add: headerRecords_def mk_defs unat_VarIntSize EBigSize_def split: option.split)
  from writtenTags_Encode [OF this, of "[]"] show ?thesis
    by (simp add: headerRecords_types)
qed

lemma frames_entries:
  "list_all wf_HTLCEntry hs \<Longrightarrow>
   frames (concat (map (writeTlvStream htlcRecords) hs)) = Some (map (Encode htlcRecords) hs)"
proof (induction hs)
  case Nil
  show ?case by simp
next
  case (Cons h hs)
  then have "length (RHash h) = 32" by (simp add: wf_HTLCEntry_def)
  from length_Encode_htlc [OF this] Cons show ?case
    by (simp add: writeTlvStream_frame frames_frame)
qed

lemma frames_serialized:
  assumes "wf_RevocationLog x"
  shows "frames (serialized x) =
     Some (Encode (headerRecords x) x # map (Encode htlcRecords) (HTLCEntries x))"
proof -
  from assms have len: "length (CommitTxHash x) = 32" and hs: "list_all wf_HTLCEntry (HTLCEntries x)"
    by (simp_all add: wf_RevocationLog_def)
  have "serialized x = frame (Encode (headerRecords x) x)
          @ concat (map (writeTlvStream htlcRecords) (HTLCEntries x))"
    by (simp add: serialized_def writeTlvStream_frame)
  then show ?thesis
    by (simp add: frames_frame [OF length_Encode_header [OF len]] frames_entries [OF hs])
qed

lemma writtenTags_serialized:
  assumes "wf_RevocationLog x"
  shows "map_option (map writtenTags) (frames (serialized x)) =
     Some (Some ([0, 1, 2] @ (case OurBalance x of None \<Rightarrow> [] | Some b \<Rightarrow> [3])
                   @ (case TheirBalance x of None \<Rightarrow> [] | Some b \<Rightarrow> [4]))
           # map (\<lambda>h. Some [0, 1, 2, 3, 4]) (HTLCEntries x))"
proof -
  from assms have len: "length (CommitTxHash x) = 32" and hs: "list_all wf_HTLCEntry (HTLCEntries x)"
    by (simp_all add: wf_RevocationLog_def)
  have "map writtenTags (map (Encode htlcRecords) (HTLCEntries x))
          = map (\<lambda>h. Some [0, 1, 2, 3, 4]) (HTLCEntries x)"
    using hs by (induction "HTLCEntries x" arbitrary: x)
      (auto simp: wf_HTLCEntry_def writtenTags_htlc list_all_iff)
  then show ?thesis
    by (simp add: frames_serialized [OF assms] writtenTags_header [OF len])
qed

lemma getRecord_frameRecords_unknown:
  "t \<notin> {0, 1, 2, 3, 4} \<Longrightarrow> getRecord frameRecords t = None"
  by (auto simp: getRecord_def frameRecords_def mk_defs revLog_types)

lemma readTlvStream_header_anyOrder:
  assumes len: "length (CommitTxHash x) = 32" and ao: "anyOrder (headerRecords x) x fs"
  shows "\<exists>q. readTlvStream (frame (encodeFields fs x) @ rest) frameRecords
            \<lparr> frame_rl = zeroRevocationLog, ourBalance = 0, theirBalance = 0 \<rparr>
          = Inr (\<lparr> frame_rl = x\<lparr>HTLCEntries := [], OurBalance := None, TheirBalance := None\<rparr>,
                   ourBalance = (case OurBalance x of None \<Rightarrow> 0 | Some b \<Rightarrow> b),
                   theirBalance = (case TheirBalance x of None \<Rightarrow> 0 | Some b \<Rightarrow> b) \<rparr>,
                 q, rest)
        \<and> (q revLogOurBalanceType = Some None \<longleftrightarrow> OurBalance x \<noteq> None)
        \<and> (q revLogTheirBalanceType = Some None \<longleftrightarrow> TheirBalance x \<noteq> None)"
proof -
  from ao have k: "set (knownRecords fs) = set (headerRecords x)"
    and un': "list_all (\<lambda>t. t \<notin> {0, 1, 2, 3, 4}) (unknownTags fs)"
    and le: "length (encodeFields fs x) < 2 ^ 63"
    by (simp_all add: anyOrder_def)
  from un' have un: "list_all (\<lambda>t. getRecord frameRecords t = None) (unknownTags fs)"
    by (auto simp: list_all_iff intro: getRecord_frameRecords_unknown)
  from le have le': "length (encodeFields fs x) < 2 ^ 64" by (rule less_trans) simp
  from k have sub: "set (knownRecords fs) \<subseteq> set (headerRecords x)" by simp
  from decode_header_fieldlist [OF len sub un le', of "[]" "{}" Map.empty]
  obtain q where
    d: "decode frameRecords (encodeFields fs x)
          \<lparr> frame_rl = zeroRevocationLog, ourBalance = 0, theirBalance = 0 \<rparr> Map.empty
        = Inr (\<lparr> frame_rl = x\<lparr>HTLCEntries := [], OurBalance := None, TheirBalance := None\<rparr>,
                 ourBalance = (case OurBalance x of None \<Rightarrow> 0 | Some b \<Rightarrow> b),
                 theirBalance = (case TheirBalance x of None \<Rightarrow> 0 | Some b \<Rightarrow> b) \<rparr>, q)"
    and q3: "q 3 = (if 3 \<in> rec_typ ` set (headerRecords x) then Some None else None)"
    and q4: "q 4 = (if 4 \<in> rec_typ ` set (headerRecords x) then Some None else None)"
    by (auto simp: frameFrom_empty k frameFrom_all)
  from q3 q4 have
    "q revLogOurBalanceType = Some None \<longleftrightarrow> OurBalance x \<noteq> None"
    "q revLogTheirBalanceType = Some None \<longleftrightarrow> TheirBalance x \<noteq> None"
    by (simp_all add: revLog_types headerRecords_tags)
  with d show ?thesis
    by (simp add: readTlvStream_frame [OF le] DecodeWithParsedTypes_def)
qed

lemma deserializeRevocationLog_anyOrder:
  assumes "wf_RevocationLog x" "anyOrder (headerRecords x) x fs"
    "list_all (\<lambda>(fs, h). wf_HTLCEntry h \<and> anyOrder htlcRecords h fs) pairs"
    "map snd pairs = HTLCEntries x"
  shows "deserializeRevocationLog
           (frame (encodeFields fs x)
              @ concat (map (\<lambda>(fs, h). frame (encodeFields fs h)) pairs)) = Inr x"
proof -
  from assms(1) have len: "length (CommitTxHash x) = 32" by (simp add: wf_RevocationLog_def)
  from readTlvStream_header_anyOrder [OF len assms(2)]
  obtain q where rd:
    "readTlvStream (frame (encodeFields fs x)
         @ concat (map (\<lambda>(fs, h). frame (encodeFields fs h)) pairs)) frameRecords
        \<lparr> frame_rl = zeroRevocationLog, ourBalance = 0, theirBalance = 0 \<rparr>
      = Inr (\<lparr> frame_rl = x\<lparr>HTLCEntries := [], OurBalance := None, TheirBalance := None\<rparr>,
               ourBalance = (case OurBalance x of None \<Rightarrow> 0 | Some b \<Rightarrow> b),
               theirBalance = (case TheirBalance x of None \<Rightarrow> 0 | Some b \<Rightarrow> b) \<rparr>,
             q, concat (map (\<lambda>(fs, h). frame (encodeFields fs h)) pairs))"
    and q: "q revLogOurBalanceType = Some None \<longleftrightarrow> OurBalance x \<noteq> None"
      "q revLogTheirBalanceType = Some None \<longleftrightarrow> TheirBalance x \<noteq> None"
    by blast
  show ?thesis
    unfolding deserializeRevocationLog_alt rd
    using deserializeHTLCEntries_loop_anyOrder [OF assms(3), of "[]"] q assms(4)
    by (cases x) (auto simp: deserializeHTLCEntries_def Let_def split: option.split)
qed

lemma length_Encode_rev: "length (Encode (rev recs) v) = length (Encode recs v)"
proof -
  have "length (Encode rs v) = (\<Sum>rc\<leftarrow>rs. length (encodeRecord rc v))" for rs
    by (induction rs) simp_all
  then show ?thesis by (simp add: rev_map [symmetric])
qed

lemma length_Encode_htlc_bound:
  assumes "length (RHash h) = 32"
  shows "length (Encode htlcRecords h) \<le> 200"
  using length_Encode [of htlcRecords h] length_WriteVarInt(2) [of "Amt h"] assms
  by (simp add: htlcRecords_def mk_defs sparseHashEncoder_def EBigSize_def split: if_splits)

lemma length_Encode_header_bound:
  assumes "length (CommitTxHash x) = 32"
  shows "length (Encode (headerRecords x) x) \<le> 200"
  using length_Encode [of "headerRecords x" x] assms
    length_WriteVarInt(2) [of "the (OurBalance x)"] length_WriteVarInt(2) [of "the (TheirBalance x)"]
  by (simp add: headerRecords_def mk_defs EBigSize_def split: option.splits)

lemma anyOrder_shuffled:
  assumes "length (Encode recs v) \<le> 200"
  shows "anyOrder recs v (shuffledFields recs)" "anyOrder recs v (map Known (rev recs))"
    "anyOrder recs v (map Known recs)"
  using assms length_WriteVarInt(2) [of 7] length_WriteVarInt(2) [of 3]
    knownRecords_Known [of "rev recs" "[]"] unknownTags_Known [of "rev recs" "[]"]
    knownRecords_Known [of "recs" "[]"] unknownTags_Known [of "recs" "[]"]
  by (simp_all add: anyOrder_def shuffledFields_def encodeFields_Known length_Encode_rev)

lemma example_anyOrder:
  "anyOrder (headerRecords exampleLog) exampleLog (shuffledFields (headerRecords exampleLog))"
  "list_all (\<lambda>(fs, h). wf_HTLCEntry h \<and> anyOrder htlcRecords h fs) examplePairs"
  "map snd examplePairs = HTLCEntries exampleLog"
proof -
  have e: "wf_HTLCEntry exampleEntry" "wf_HTLCEntry exampleSparseEntry"
    by (simp_all add: wf_HTLCEntry_def exampleEntry_def exampleSparseEntry_def ZeroHash_def)
  have l: "length (CommitTxHash exampleLog) = 32" by (simp add: exampleLog_def)
  show "anyOrder (headerRecords exampleLog) exampleLog (shuffledFields (headerRecords exampleLog))"
    by (rule anyOrder_shuffled (1) [OF length_Encode_header_bound [OF l]])
  show "list_all (\<lambda>(fs, h). wf_HTLCEntry h \<and> anyOrder htlcRecords h fs) examplePairs"
    using e anyOrder_shuffled [OF length_Encode_htlc_bound, of exampleEntry]
      anyOrder_shuffled [OF length_Encode_htlc_bound, of exampleSparseEntry]
    by (simp add: examplePairs_def wf_HTLCEntry_def)
  show "map snd examplePairs = HTLCEntries exampleLog"
    by (simp add: examplePairs_def exampleLog_def)
qed

section \<open>The claims\<close>

text \<open>
  C1. Round trip: for every revocation log (any number of HTLC entries, each balance
  absent or present, also present with the value zero, payment hashes zero or not),
  serialization succeeds and deserializing its bytes gives back the same log, with the
  same presence of each balance and the same list of entries in the same order.
\<close>

theorem C1_roundtrip:
  assumes "wf_RevocationLog v"
  shows "\<exists>b. serializeRevocationLog v = Inr b \<and> deserializeRevocationLog b = Inr v"
  using deserialize_serialize [OF assms] by (simp add: serializeRevocationLog_eq)

theorem C1_roundtrip_witness:
  "wf_RevocationLog exampleLog \<and>
   (\<exists>b. serializeRevocationLog exampleLog = Inr b \<and> deserializeRevocationLog b = Inr exampleLog)"
  using wf_exampleLog C1_roundtrip [OF wf_exampleLog] by simp




text \<open>
  C3. When the new bucket exists and holds a record at the height that decodes, the
  result is that log, tagged as the new format, whatever the old bucket holds and
  whatever the old decoder does. When the new bucket is missing or has no record at the
  height and the old bucket holds one that decodes, the result is the old commitment.
  A decoding error of the record in the new bucket, other than \<open>ErrLogEntryNotFound\<close>,
  is returned at once.
\<close>

theorem C3_fetch_compatible:
  "(NestedReadBucket cb revocationLogBucket = Some log
      \<and> Get log (makeLogKey h) = Some bytes
      \<and> deserializeRevocationLog bytes = Inr x \<longrightarrow>
        fetchRevocationLogCompatible dcc cb h = (Some x, None, None)
      \<and> fetchRevocationLogCompatible dcc'
           (cb\<lparr>nested := (nested cb)(revocationLogBucketDeprecated := old')\<rparr>) h
          = (Some x, None, None))
   \<and> ((NestedReadBucket cb revocationLogBucket = None
        \<or> (\<exists>b. NestedReadBucket cb revocationLogBucket = Some b \<and> Get b (makeLogKey h) = None))
      \<and> NestedReadBucket cb revocationLogBucketDeprecated = Some old
      \<and> Get old (makeLogKey h) = Some obytes
      \<and> dcc obytes = Inr c \<longrightarrow>
        fetchRevocationLogCompatible dcc cb h = (None, Some c, None))
   \<and> (NestedReadBucket cb revocationLogBucket = Some log
      \<and> Get log (makeLogKey h) = Some bytes
      \<and> deserializeRevocationLog bytes = Inl e
      \<and> e \<noteq> ErrLogEntryNotFound \<longrightarrow>
        fetchRevocationLogCompatible dcc cb h = (None, None, Some e))"
  using bucket_names_differ
  by (auto simp: fetchRevocationLogCompatible_def fetchRevocationLog_def
      fetchOldRevocationLog_def NestedReadBucket_def Let_def)

theorem C3_fetch_compatible_witness:
  "fetchRevocationLogCompatible legacyDecoder chanLegacyOnly 10 = (None, Some exampleCommit, None)
   \<and> fetchRevocationLogCompatible legacyDecoder chanBoth 10 = (Some exampleLog, None, None)
   \<and> fetchRevocationLogCompatible legacyDecoder chanCorrupt 10
       = (None, None, Some ErrUnexpectedEOF)"
proof -
  have a: "fetchRevocationLogCompatible legacyDecoder chanLegacyOnly 10
             = (None, Some exampleCommit, None)"
    using C3_fetch_compatible [where cb = chanLegacyOnly and h = 10 and dcc = legacyDecoder
        and old = "[makeLogKey 10 \<mapsto> [1, 2, 3]]" and obytes = "[1, 2, 3]"
        and c = exampleCommit]
      bucket_names_differ
    by (simp add: chanLegacyOnly_def NestedReadBucket_def Get_def legacyDecoder_def)
  have b: "fetchRevocationLogCompatible legacyDecoder chanBoth 10 = (Some exampleLog, None, None)"
    using C3_fetch_compatible [where cb = chanBoth and h = 10 and dcc = legacyDecoder
        and log = "[makeLogKey 10 \<mapsto> serialized exampleLog]"
        and bytes = "serialized exampleLog" and x = exampleLog]
      deserialize_serialized [OF wf_exampleLog]
    by (simp add: chanBoth_def NestedReadBucket_def Get_def)
  have c: "fetchRevocationLogCompatible legacyDecoder chanCorrupt 10
             = (None, None, Some ErrUnexpectedEOF)"
    using C3_fetch_compatible [where cb = chanCorrupt and h = 10 and dcc = legacyDecoder
        and log = "[makeLogKey 10 \<mapsto> []]" and bytes = "[]" and e = ErrUnexpectedEOF]
      deserialize_Nil
    by (simp add: chanCorrupt_def NestedReadBucket_def Get_def)
  show ?thesis using a b c by simp
qed

text \<open>
  C4. With neither bucket the error is \<open>ErrNoPastDeltas\<close>; with the new bucket present
  and the height in neither bucket it is \<open>ErrLogEntryNotFound\<close>; the two errors differ.
\<close>

theorem C4_not_found_errors:
  "(NestedReadBucket cb revocationLogBucket = None
      \<and> NestedReadBucket cb revocationLogBucketDeprecated = None \<longrightarrow>
        fetchRevocationLogCompatible dcc cb h = (None, None, Some ErrNoPastDeltas))
   \<and> (NestedReadBucket cb revocationLogBucket = Some log
      \<and> Get log (makeLogKey h) = None
      \<and> (case NestedReadBucket cb revocationLogBucketDeprecated of
            None \<Rightarrow> True
          | Some old \<Rightarrow> Get old (makeLogKey h) = None) \<longrightarrow>
        fetchRevocationLogCompatible dcc cb h = (None, None, Some ErrLogEntryNotFound))
   \<and> ErrNoPastDeltas \<noteq> ErrLogEntryNotFound"
  by (auto simp: fetchRevocationLogCompatible_def fetchRevocationLog_def
      fetchOldRevocationLog_def Let_def split: option.splits)

theorem C4_not_found_errors_witness:
  "fetchRevocationLogCompatible legacyDecoder chanEmpty 5 = (None, None, Some ErrNoPastDeltas)
   \<and> fetchRevocationLogCompatible legacyDecoder chanBoth 5
       = (None, None, Some ErrLogEntryNotFound)"
proof -
  have a: "fetchRevocationLogCompatible legacyDecoder chanEmpty 5
             = (None, None, Some ErrNoPastDeltas)"
    using C4_not_found_errors [where cb = chanEmpty and h = 5 and dcc = legacyDecoder]
    by (simp add: chanEmpty_def NestedReadBucket_def)
  have b: "fetchRevocationLogCompatible legacyDecoder chanBoth 5
             = (None, None, Some ErrLogEntryNotFound)"
    using C4_not_found_errors [where cb = chanBoth and h = 5 and dcc = legacyDecoder
        and log = "[makeLogKey 10 \<mapsto> serialized exampleLog]"]
      bucket_names_differ makeLogKey_5_10
    by (simp add: chanBoth_def NestedReadBucket_def Get_def)
  show ?thesis using a b by simp
qed

text \<open>
  C5. \<open>putRevocationLog\<close> fails with \<open>ErrOutputIndexTooBig\<close> exactly when our output
  index, their output index or the output index of an HTLC that is not dust is above
  65535, and then the bucket is unchanged. Otherwise it succeeds and the stored log,
  fetched again, has the given indices unchanged (nothing is clamped); 65535 itself is
  accepted.
\<close>

theorem C5_output_index_too_big:
  "(snd (putRevocationLog toSat bucket commit our their noAmt) = Some ErrOutputIndexTooBig \<longleftrightarrow>
      65535 < our \<or> 65535 < their \<or>
      (\<exists>h\<in>set (Htlcs commit).
          0 \<le> sint (HTLC_OutputIndex h) \<and> 65535 < sint (HTLC_OutputIndex h)))
   \<and> (snd (putRevocationLog toSat bucket commit our their noAmt) = Some ErrOutputIndexTooBig \<longrightarrow>
        fst (putRevocationLog toSat bucket commit our their noAmt) = bucket)
   \<and> (snd (putRevocationLog toSat bucket commit our their noAmt) \<noteq> Some ErrOutputIndexTooBig
          \<and> wf_ChannelCommitment commit \<longrightarrow>
        snd (putRevocationLog toSat bucket commit our their noAmt) = None \<and>
        (\<exists>x. fetchRevocationLog (fst (putRevocationLog toSat bucket commit our their noAmt))
                (CommitHeight commit) = Inr x
           \<and> ucast (OurOutputIndex x) = our
           \<and> ucast (TheirOutputIndex x) = their
           \<and> map (\<lambda>e. ucast (OutputIndex e)) (HTLCEntries x)
                = map HTLC_OutputIndex (filter nonDust (Htlcs commit))))"
proof -
  let ?R = "putRevocationLog toSat bucket commit our their noAmt"
  let ?big = "65535 < our \<or> 65535 < their \<or> list_ex tooBig (Htlcs commit)"
  have err: "snd ?R = Some ErrOutputIndexTooBig \<longleftrightarrow> ?big"
    by (simp add: putRevocationLog_eq)
  have unchanged: "?big \<Longrightarrow> fst ?R = bucket"
    by (simp add: putRevocationLog_eq)
  have ok: "snd ?R = None \<and>
        (\<exists>x. fetchRevocationLog (fst ?R) (CommitHeight commit) = Inr x
           \<and> ucast (OurOutputIndex x) = our
           \<and> ucast (TheirOutputIndex x) = their
           \<and> map (\<lambda>e. ucast (OutputIndex e)) (HTLCEntries x)
                = map HTLC_OutputIndex (filter nonDust (Htlcs commit)))"
    if nb: "\<not> ?big" and wf: "wf_ChannelCommitment commit"
  proof -
    let ?x = "revLogOf toSat commit our their noAmt"
    have R: "?R = (Put bucket (makeLogKey (CommitHeight commit)) (serialized ?x), None)"
      using nb by (simp add: putRevocationLog_eq)
    have f: "fetchRevocationLog (fst ?R) (CommitHeight commit) = Inr ?x"
      unfolding R using fetch_after_put [OF wf_revLogOf [OF wf]] by simp
    have o: "ucast (OurOutputIndex ?x) = our" "ucast (TheirOutputIndex ?x) = their"
      using nb by (simp_all add: revLogOf_def widen16 not_less)
    have h: "map (\<lambda>e. ucast (OutputIndex e)) (HTLCEntries ?x)
                = map HTLC_OutputIndex (filter nonDust (Htlcs commit))"
      using nb stored_indices [of "Htlcs commit" toSat] by (simp add: revLogOf_def)
    show ?thesis using R f o h by simp
  qed
  show ?thesis
    using err unchanged ok by (simp only: list_ex_tooBig) blast
qed


theorem C5_output_index_too_big_witness:
  "(snd (putRevocationLog toSat0 Map.empty exampleCommit 65536 1 False) = Some ErrOutputIndexTooBig
    \<and> fst (putRevocationLog toSat0 Map.empty exampleCommit 65536 1 False) = Map.empty)
   \<and> (wf_ChannelCommitment exampleCommit
    \<and> snd (putRevocationLog toSat0 Map.empty exampleCommit 65535 1 False) = None
    \<and> (\<exists>x. fetchRevocationLog (fst (putRevocationLog toSat0 Map.empty exampleCommit 65535 1 False))
               10 = Inr x
          \<and> ucast (OurOutputIndex x) = (65535 :: 32 word)))"
proof -
  have big: "snd (putRevocationLog toSat0 Map.empty exampleCommit 65536 1 False)
               = Some ErrOutputIndexTooBig"
    using C5_output_index_too_big [of toSat0 Map.empty exampleCommit 65536 1 False] by simp
  have small: "snd (putRevocationLog toSat0 Map.empty exampleCommit 65535 1 False)
               \<noteq> Some ErrOutputIndexTooBig"
    using C5_output_index_too_big [of toSat0 Map.empty exampleCommit 65535 1 False]
    by (simp add: example_defs)
  have h: "CommitHeight exampleCommit = 10" by (simp add: exampleCommit_def)
  show ?thesis
    using big small wf_exampleCommit h
      C5_output_index_too_big [of toSat0 Map.empty exampleCommit 65536 1 False]
      C5_output_index_too_big [of toSat0 Map.empty exampleCommit 65535 1 False]
    by auto
qed

text \<open>
  C6. A log serialized with a balance absent deserializes with that balance absent, and
  one serialized with a balance present and zero deserializes with it present and zero.
  Whenever deserialization succeeds, each balance of the result is present exactly when
  the balance's tag is among the tags that the header read has parsed, with the value
  decoded for it; no value of the number stands for absence.
\<close>

theorem C6_balance_optionality:
  "(wf_RevocationLog v \<longrightarrow>
      (\<exists>b x. serializeRevocationLog v = Inr b \<and> deserializeRevocationLog b = Inr x
         \<and> (OurBalance v = None \<longrightarrow> OurBalance x = None)
         \<and> (OurBalance v = Some 0 \<longrightarrow> OurBalance x = Some 0)
         \<and> (TheirBalance v = None \<longrightarrow> TheirBalance x = None)
         \<and> (TheirBalance v = Some 0 \<longrightarrow> TheirBalance x = Some 0)))
   \<and> (deserializeRevocationLog r = Inr y \<longrightarrow>
      (\<exists>f parsedTypes r'.
         readTlvStream r frameRecords
           \<lparr> frame_rl = zeroRevocationLog, ourBalance = 0, theirBalance = 0 \<rparr>
           = Inr (f, parsedTypes, r')
         \<and> OurBalance y
             = (if revLogOurBalanceType \<in> dom parsedTypes then Some (ourBalance f) else None)
         \<and> TheirBalance y
             = (if revLogTheirBalanceType \<in> dom parsedTypes then Some (theirBalance f)
                else None)))"
proof -
  have rt: "\<exists>b x. serializeRevocationLog v = Inr b \<and> deserializeRevocationLog b = Inr x
         \<and> (OurBalance v = None \<longrightarrow> OurBalance x = None)
         \<and> (OurBalance v = Some 0 \<longrightarrow> OurBalance x = Some 0)
         \<and> (TheirBalance v = None \<longrightarrow> TheirBalance x = None)
         \<and> (TheirBalance v = Some 0 \<longrightarrow> TheirBalance x = Some 0)"
    if "wf_RevocationLog v"
    using deserialize_serialize [OF that] by (simp add: serializeRevocationLog_eq)
  have dec: "\<exists>f parsedTypes r'.
         readTlvStream r frameRecords
           \<lparr> frame_rl = zeroRevocationLog, ourBalance = 0, theirBalance = 0 \<rparr>
           = Inr (f, parsedTypes, r')
         \<and> OurBalance y
             = (if revLogOurBalanceType \<in> dom parsedTypes then Some (ourBalance f) else None)
         \<and> TheirBalance y
             = (if revLogTheirBalanceType \<in> dom parsedTypes then Some (theirBalance f)
                else None)"
    if "deserializeRevocationLog r = Inr y"
  proof -
    from that obtain f p r' hs where
      rd: "readTlvStream r frameRecords
             \<lparr> frame_rl = zeroRevocationLog, ourBalance = 0, theirBalance = 0 \<rparr> = Inr (f, p, r')"
      and y: "y = (let rl1 = (if p revLogOurBalanceType = Some None
                       then (frame_rl f)\<lparr>OurBalance := Some (ourBalance f)\<rparr>
                       else frame_rl f);
                    rl2 = (if p revLogTheirBalanceType = Some None
                       then rl1\<lparr>TheirBalance := Some (theirBalance f)\<rparr>
                       else rl1)
                in rl2\<lparr>HTLCEntries := hs\<rparr>)"
      unfolding deserializeRevocationLog_alt Let_def
      by (auto split: sum.splits prod.splits)
    from readTlvStream_header_invariant [OF rd]
    have "OurBalance (frame_rl f) = None" "TheirBalance (frame_rl f) = None"
      "p revLogOurBalanceType = Some None \<longleftrightarrow> revLogOurBalanceType \<in> dom p"
      "p revLogTheirBalanceType = Some None \<longleftrightarrow> revLogTheirBalanceType \<in> dom p"
      by (auto simp: headerInvariant_def)
    then show ?thesis using rd y by (simp add: Let_def)
  qed
  show ?thesis using rt dec by blast
qed

theorem C6_balance_optionality_witness:
  "wf_RevocationLog exampleLog \<and> OurBalance exampleLog = Some 0 \<and> TheirBalance exampleLog = None
   \<and> (\<exists>b x. serializeRevocationLog exampleLog = Inr b \<and> deserializeRevocationLog b = Inr x
         \<and> OurBalance x = Some 0 \<and> TheirBalance x = None)
   \<and> (\<exists>f parsedTypes r'.
         readTlvStream (serialized exampleLog) frameRecords
           \<lparr> frame_rl = zeroRevocationLog, ourBalance = 0, theirBalance = 0 \<rparr>
           = Inr (f, parsedTypes, r')
         \<and> Some 0
             = (if revLogOurBalanceType \<in> dom parsedTypes then Some (ourBalance f) else None)
         \<and> None
             = (if revLogTheirBalanceType \<in> dom parsedTypes then Some (theirBalance f)
                else None))"
proof -
  have b: "OurBalance exampleLog = Some 0" "TheirBalance exampleLog = None"
    by (simp_all add: exampleLog_def)
  have d: "deserializeRevocationLog (serialized exampleLog) = Inr exampleLog"
    by (rule deserialize_serialized [OF wf_exampleLog])
  show ?thesis
    using C6_balance_optionality [of exampleLog "serialized exampleLog" exampleLog]
      wf_exampleLog b d
    by simp
qed

text \<open>
  C7. The sparse hash decoder called with the declared length 1 on 32 bytes returns
  those bytes as the hash and no error: the declared length is not checked. A stored
  entry whose hash field declares the length 1 is decoded without error.
\<close>

theorem C7_sparse_hash_length_not_checked:
  "sparseHashDecoder (replicate 32 0xAA) 1 ZeroHash = Inr (replicate 32 0xAA, 32)
   \<and> deserializeHTLCEntries ([34, 0, 1] @ replicate 32 0xAA)
       = Inr [zeroHTLCEntry\<lparr>RHash := replicate 32 0xAA\<rparr>]"
  by code_simp


text \<open>
  C8. The records of an HTLC entry have the tags 0 to 4 in this order, and
  \<open>writeTlvStream\<close> writes the fields of its records in their order. In the bytes that
  \<open>serializeRevocationLog\<close> writes, the fields of the header stand in the order 0, 1, 2,
  then 3 and 4 when the balances are present, and the fields of every entry in the
  order 0, 1, 2, 3, 4. \<open>readTlvStream\<close>, \<open>deserializeHTLCEntries\<close> and
  \<open>deserializeRevocationLog\<close> accept the fields of a record in any order and skip
  fields with unknown tags by their declared length, wherever they stand: the result is
  the entry, the list of entries and the log that were encoded.
\<close>

theorem C8_field_order:
  "map rec_typ htlcRecords = [0, 1, 2, 3, 4]
   \<and> toTlvStream = Inr htlcRecords
   \<and> writeTlvStream s v = frame (encodeFields (map Known s) v)
   \<and> (wf_RevocationLog x \<longrightarrow>
        (\<exists>b. serializeRevocationLog x = Inr b
           \<and> map_option (map writtenTags) (frames b) =
               Some (Some ([0, 1, 2] @ (case OurBalance x of None \<Rightarrow> [] | Some lb \<Rightarrow> [3])
                              @ (case TheirBalance x of None \<Rightarrow> [] | Some rb \<Rightarrow> [4]))
                     # map (\<lambda>h. Some [0, 1, 2, 3, 4]) (HTLCEntries x))))
   \<and> (wf_HTLCEntry h \<and> anyOrder htlcRecords h fs \<longrightarrow>
        (\<exists>q. readTlvStream (frame (encodeFields fs h) @ rest) htlcRecords zeroHTLCEntry
               = Inr (h, q, rest)))
   \<and> (list_all (\<lambda>(fs, h). wf_HTLCEntry h \<and> anyOrder htlcRecords h fs) pairs \<longrightarrow>
        deserializeHTLCEntries (concat (map (\<lambda>(fs, h). frame (encodeFields fs h)) pairs))
          = Inr (map snd pairs))
   \<and> (wf_RevocationLog x \<and> anyOrder (headerRecords x) x hfs
        \<and> list_all (\<lambda>(fs, h). wf_HTLCEntry h \<and> anyOrder htlcRecords h fs) pairs
        \<and> map snd pairs = HTLCEntries x \<longrightarrow>
        deserializeRevocationLog
          (frame (encodeFields hfs x)
             @ concat (map (\<lambda>(fs, h). frame (encodeFields fs h)) pairs)) = Inr x)"
proof -
  have types: "map rec_typ htlcRecords = [0, 1, 2, 3, 4]"
    by (simp add: htlcRecords_def mk_defs)
  have w: "writeTlvStream s v = frame (encodeFields (map Known s) v)"
    by (simp add: writeTlvStream_frame encodeFields_Known)
  have enc: "\<exists>b. serializeRevocationLog x = Inr b
           \<and> map_option (map writtenTags) (frames b) =
               Some (Some ([0, 1, 2] @ (case OurBalance x of None \<Rightarrow> [] | Some lb \<Rightarrow> [3])
                              @ (case TheirBalance x of None \<Rightarrow> [] | Some rb \<Rightarrow> [4]))
                     # map (\<lambda>h. Some [0, 1, 2, 3, 4]) (HTLCEntries x))"
    if "wf_RevocationLog x"
    using writtenTags_serialized [OF that]
    by (simp add: serializeRevocationLog_eq serialized_def)
  have one: "\<exists>q. readTlvStream (frame (encodeFields fs h) @ rest) htlcRecords zeroHTLCEntry
               = Inr (h, q, rest)"
    if "wf_HTLCEntry h" "anyOrder htlcRecords h fs"
    using that by (rule readTlvStream_htlc_anyOrder)
  have many: "deserializeHTLCEntries (concat (map (\<lambda>(fs, h). frame (encodeFields fs h)) pairs))
          = Inr (map snd pairs)"
    if "list_all (\<lambda>(fs, h). wf_HTLCEntry h \<and> anyOrder htlcRecords h fs) pairs"
    using deserializeHTLCEntries_loop_anyOrder [OF that, of "[]"]
    by (simp add: deserializeHTLCEntries_def)
  have whole: "deserializeRevocationLog
          (frame (encodeFields hfs x)
             @ concat (map (\<lambda>(fs, h). frame (encodeFields fs h)) pairs)) = Inr x"
    if "wf_RevocationLog x" "anyOrder (headerRecords x) x hfs"
      "list_all (\<lambda>(fs, h). wf_HTLCEntry h \<and> anyOrder htlcRecords h fs) pairs"
      "map snd pairs = HTLCEntries x"
    using that by (rule deserializeRevocationLog_anyOrder)
  show ?thesis
    using types toTlvStream_eq w enc one many whole by blast
qed

theorem C8_field_order_witness:
  "wf_RevocationLog exampleLog
   \<and> (\<exists>b. serializeRevocationLog exampleLog = Inr b
         \<and> map_option (map writtenTags) (frames b) =
             Some [Some [0, 1, 2, 3], Some [0, 1, 2, 3, 4], Some [0, 1, 2, 3, 4],
                   Some [0, 1, 2, 3, 4]])
   \<and> (\<exists>q. readTlvStream (frame (encodeFields (shuffledFields htlcRecords) exampleEntry) @ [9])
              htlcRecords zeroHTLCEntry = Inr (exampleEntry, q, [9]))
   \<and> deserializeHTLCEntries (concat (map (\<lambda>(fs, h). frame (encodeFields fs h)) examplePairs))
       = Inr [exampleEntry, exampleSparseEntry, exampleEntry]
   \<and> deserializeRevocationLog
        (frame (encodeFields (shuffledFields (headerRecords exampleLog)) exampleLog)
           @ concat (map (\<lambda>(fs, h). frame (encodeFields fs h)) examplePairs)) = Inr exampleLog"
proof -
  note inst = C8_field_order [where x = exampleLog and h = exampleEntry
      and fs = "shuffledFields htlcRecords" and rest = "[9]" and pairs = examplePairs
      and hfs = "shuffledFields (headerRecords exampleLog)" and s = htlcRecords
      and v = exampleEntry]
  have e: "wf_HTLCEntry exampleEntry"
    by (simp add: wf_HTLCEntry_def exampleEntry_def)
  have a: "anyOrder htlcRecords exampleEntry (shuffledFields htlcRecords)"
    using e by (intro anyOrder_shuffled length_Encode_htlc_bound) (simp add: wf_HTLCEntry_def)
  have b: "OurBalance exampleLog = Some 0" "TheirBalance exampleLog = None"
    "HTLCEntries exampleLog = [exampleEntry, exampleSparseEntry, exampleEntry]"
    by (simp_all add: exampleLog_def)
  have w1: "\<exists>b. serializeRevocationLog exampleLog = Inr b
         \<and> map_option (map writtenTags) (frames b) =
             Some [Some [0, 1, 2, 3], Some [0, 1, 2, 3, 4], Some [0, 1, 2, 3, 4],
                   Some [0, 1, 2, 3, 4]]"
    using inst wf_exampleLog b by simp
  have w2: "\<exists>q. readTlvStream (frame (encodeFields (shuffledFields htlcRecords) exampleEntry) @ [9])
              htlcRecords zeroHTLCEntry = Inr (exampleEntry, q, [9])"
    using inst e a by blast
  have w3: "deserializeHTLCEntries (concat (map (\<lambda>(fs, h). frame (encodeFields fs h)) examplePairs))
       = Inr [exampleEntry, exampleSparseEntry, exampleEntry]"
    using inst example_anyOrder(2) example_anyOrder(3) b(3) by simp
  have w4: "deserializeRevocationLog
        (frame (encodeFields (shuffledFields (headerRecords exampleLog)) exampleLog)
           @ concat (map (\<lambda>(fs, h). frame (encodeFields fs h)) examplePairs)) = Inr exampleLog"
    using inst wf_exampleLog example_anyOrder by blast
  show ?thesis using wf_exampleLog w1 w2 w3 w4 by blast
qed

text \<open>
  C9. \<open>deleteLogBucket\<close> never fails, leaves neither the new nor the old bucket and
  touches no other nested bucket; called again on its result it succeeds and changes
  nothing.
\<close>

theorem C9_delete_idempotent:
  "snd (deleteLogBucket cb) = None
   \<and> nested (fst (deleteLogBucket cb))
       = (nested cb)(revocationLogBucket := None, revocationLogBucketDeprecated := None)
   \<and> deleteLogBucket (fst (deleteLogBucket cb)) = (fst (deleteLogBucket cb), None)"
  by (auto simp: deleteLogBucket_def DeleteNestedBucket_def NestedReadWriteBucket_def Let_def
      fun_upd_idem split: option.splits)

text \<open>
  C10. Dust HTLCs (negative output index) are skipped by \<open>putRevocationLog\<close>: its
  result is the same as for the commitment without them, so they are never an error,
  and the stored list of entries is made of the HTLCs with a non-negative output index,
  in their order.
\<close>

theorem C10_dust_htlcs_skipped:
  "putRevocationLog toSat bucket commit our their noAmt
     = putRevocationLog toSat bucket (commit\<lparr>Htlcs := filter nonDust (Htlcs commit)\<rparr>)
         our their noAmt
   \<and> (snd (putRevocationLog toSat bucket commit our their noAmt) = None \<longrightarrow>
        (\<exists>x b. serializeRevocationLog x = Inr b
           \<and> fst (putRevocationLog toSat bucket commit our their noAmt)
               = Put bucket (makeLogKey (CommitHeight commit)) b
           \<and> HTLCEntries x
               = map (NewHTLCEntryFromHTLC toSat) (filter nonDust (Htlcs commit))))
   \<and> (snd (putRevocationLog toSat bucket commit our their noAmt) = None
          \<and> wf_ChannelCommitment commit \<longrightarrow>
        (\<exists>x. fetchRevocationLog (fst (putRevocationLog toSat bucket commit our their noAmt))
                (CommitHeight commit) = Inr x
           \<and> HTLCEntries x
               = map (NewHTLCEntryFromHTLC toSat) (filter nonDust (Htlcs commit))))"
proof -
  let ?R = "putRevocationLog toSat bucket commit our their noAmt"
  let ?x = "revLogOf toSat commit our their noAmt"
  have same: "?R = putRevocationLog toSat bucket
                     (commit\<lparr>Htlcs := filter nonDust (Htlcs commit)\<rparr>) our their noAmt"
  proof -
    have "list_ex tooBig (filter nonDust (Htlcs commit)) = list_ex tooBig (Htlcs commit)"
      by (force simp: list_ex_iff tooBig_def nonDust_def)
    moreover have "revLogOf toSat (commit\<lparr>Htlcs := filter nonDust (Htlcs commit)\<rparr>) our their noAmt
        = revLogOf toSat commit our their noAmt"
      by (simp add: revLogOf_def)
    ultimately show ?thesis by (simp add: putRevocationLog_eq)
  qed
  have R: "?R = (Put bucket (makeLogKey (CommitHeight commit)) (serialized ?x), None)"
    if "snd ?R = None"
    using that by (simp add: putRevocationLog_eq split: if_splits)
  have e: "HTLCEntries ?x = map (NewHTLCEntryFromHTLC toSat) (filter nonDust (Htlcs commit))"
    by (simp add: revLogOf_def)
  have stored: "\<exists>x b. serializeRevocationLog x = Inr b
           \<and> fst ?R = Put bucket (makeLogKey (CommitHeight commit)) b
           \<and> HTLCEntries x = map (NewHTLCEntryFromHTLC toSat) (filter nonDust (Htlcs commit))"
    if "snd ?R = None"
    using R [OF that] e serializeRevocationLog_eq [of ?x] by (auto simp: serialized_def)
  have fetched: "\<exists>x. fetchRevocationLog (fst ?R) (CommitHeight commit) = Inr x
           \<and> HTLCEntries x = map (NewHTLCEntryFromHTLC toSat) (filter nonDust (Htlcs commit))"
    if "snd ?R = None" "wf_ChannelCommitment commit"
    using R [OF that(1)] e fetch_after_put [OF wf_revLogOf [OF that(2)]] by simp
  show ?thesis using same stored fetched by blast
qed

theorem C10_dust_htlcs_skipped_witness:
  "wf_ChannelCommitment exampleCommit
   \<and> Htlcs exampleCommit = [exampleDust, exampleHtlcMax, exampleHtlc]
   \<and> snd (putRevocationLog toSat0 Map.empty exampleCommit 65535 1 False) = None
   \<and> (\<exists>x. fetchRevocationLog (fst (putRevocationLog toSat0 Map.empty exampleCommit 65535 1 False))
              10 = Inr x
         \<and> HTLCEntries x = [NewHTLCEntryFromHTLC toSat0 exampleHtlcMax,
                              NewHTLCEntryFromHTLC toSat0 exampleHtlc])"
proof -
  have ok: "snd (putRevocationLog toSat0 Map.empty exampleCommit 65535 1 False) = None"
    by (simp add: putRevocationLog_eq example_defs tooBig_def)
  have f: "filter nonDust (Htlcs exampleCommit) = [exampleHtlcMax, exampleHtlc]"
    by (simp add: example_defs nonDust_def)
  have h: "CommitHeight exampleCommit = 10" "Htlcs exampleCommit = [exampleDust, exampleHtlcMax, exampleHtlc]"
    by (simp_all add: exampleCommit_def)
  show ?thesis
    using ok f h wf_exampleCommit
      C10_dust_htlcs_skipped [of toSat0 Map.empty exampleCommit 65535 1 False]
    by auto
qed

end
